theory Spec2Isabelle
  imports Complex_Main "HOL-Library.Word" "HOL-Library.Signed_Division"
begin

unbundle bit_operations_syntax

section \<open>Data model\<close>

type_synonym u8 = "8 word"
type_synonym u32 = "32 word"

text \<open>
  A C \<^verbatim>\<open>float\<close> / Rust \<^verbatim>\<open>f32\<close> is carried as its IEEE-754 bit pattern: the
  transmitter only ever reinterprets a float as \<^verbatim>\<open>uint32_t\<close>
  (\<^verbatim>\<open>*reinterpret_cast<uint32_t*>(&dat[i].temp)\<close>) and the receiver only ever builds
  one with \<^verbatim>\<open>f32::from_bits\<close>; no arithmetic is done on the values.
\<close>

datatype f32 = from_bits (to_bits: u32)

text \<open>
  \<^verbatim>\<open>cxd5602pwbimu_data_t\<close> (declared in the NuttX header,
      used by the sketch through the
  fields \<^verbatim>\<open>timestamp, temp, gx, gy, gz, ax, ay, az\<close>).
\<close>

record cxd5602pwbimu_data_t =
  timestamp :: u32
  temp :: f32
  gx :: f32
  gy :: f32
  gz :: f32
  ax :: f32
  ay :: f32
  az :: f32

text \<open>
  The receiver's \<^verbatim>\<open>SensorData\<close>: the same eight fields followed by
  \<^verbatim>\<open>system_timestamp\<close> (milliseconds, \<^verbatim>\<open>i64\<close>).
\<close>

record SensorData = cxd5602pwbimu_data_t +
  system_timestamp :: int

datatype ReceiverError = ParseError string

section \<open>Receiver: binary frame parser (uart\_optimization\_report.md)\<close>

text \<open>\<^verbatim>\<open>u32::from_le_bytes([b0, b1, b2, b3])\<close>.\<close>

definition from_le_bytes :: "u8 \<Rightarrow> u8 \<Rightarrow> u8 \<Rightarrow> u8 \<Rightarrow> u32" where
  "from_le_bytes b0 b1 b2 b3 =
     ucast b0 OR push_bit 8 (ucast b1) OR push_bit 16 (ucast b2) OR push_bit 24 (ucast b3)"

text \<open>The slice \<^verbatim>\<open>&buffer[a..b]\<close>,
    for \<open>a \<le> b \<le> length buffer\<close>.\<close>

definition subslice :: "'a list \<Rightarrow> nat \<Rightarrow> nat \<Rightarrow> 'a list" where
  "subslice buffer a b = take (b - a) (drop a buffer)"

text \<open>
  \<^verbatim>\<open>parse_binary_sensor_data(buffer,
      start_index)\<close>. The helper \<^verbatim>\<open>calculate_crc8\<close> is
  called but defined nowhere in the repository, so it is a parameter here; the clock
  reading \<^verbatim>\<open>Utc::now().timestamp_millis()\<close> is the parameter \<open>system_ts\<close>.
  Every index read lies below \<open>start_index + 35 \<le> length buffer\<close>,
      so no read panics.
\<close>

definition parse_binary_sensor_data ::
  "(u8 list \<Rightarrow> u8) \<Rightarrow> int \<Rightarrow> u8 list \<Rightarrow> nat \<Rightarrow> ReceiverError + (SensorData \<times> nat)" where
  "parse_binary_sensor_data calculate_crc8 system_ts buffer start_index =
    (if length buffer < start_index + 35 then
       Inl (ParseError ''Incomplete data frame'')
     else if buffer ! start_index \<noteq> 0xAA \<or> buffer ! (start_index + 1) \<noteq> 0x55 then
       Inl (ParseError ''Invalid frame header'')
     else
       let timestamp = from_le_bytes (buffer ! (start_index + 2)) (buffer ! (start_index + 3))
                         (buffer ! (start_index + 4)) (buffer ! (start_index + 5));
           temp = from_bits (from_le_bytes (buffer ! (start_index + 6)) (buffer ! (start_index + 7))
                         (buffer ! (start_index + 8)) (buffer ! (start_index + 9)));
           gx = from_bits (from_le_bytes (buffer ! (start_index + 10)) (buffer ! (start_index + 11))
                         (buffer ! (start_index + 12)) (buffer ! (start_index + 13)));
           gy = from_bits (from_le_bytes (buffer ! (start_index + 14)) (buffer ! (start_index + 15))
                         (buffer ! (start_index + 16)) (buffer ! (start_index + 17)));
           gz = from_bits (from_le_bytes (buffer ! (start_index + 18)) (buffer ! (start_index + 19))
                         (buffer ! (start_index + 20)) (buffer ! (start_index + 21)));
           ax = from_bits (from_le_bytes (buffer ! (start_index + 22)) (buffer ! (start_index + 23))
                         (buffer ! (start_index + 24)) (buffer ! (start_index + 25)));
           ay = from_bits (from_le_bytes (buffer ! (start_index + 26)) (buffer ! (start_index + 27))
                         (buffer ! (start_index + 28)) (buffer ! (start_index + 29)));
           az = from_bits (from_le_bytes (buffer ! (start_index + 30)) (buffer ! (start_index + 31))
                         (buffer ! (start_index + 32)) (buffer ! (start_index + 33)));
           calculated_crc = calculate_crc8 (subslice buffer (start_index + 2) (start_index + 34))
       in if calculated_crc \<noteq> buffer ! (start_index + 34) then
            Inl (ParseError ''CRC check failed'')
          else
            Inr (\<lparr>timestamp = timestamp, temp = temp, gx = gx, gy = gy, gz = gz,
                   ax = ax, ay = ay, az = az, system_timestamp = system_ts\<rparr>,
                 start_index + 35))"

text \<open>
  The scanning loop of \<^verbatim>\<open>read_binary_sensor_data\<close>:
  \<^verbatim>\<open>while index < n { ... }\<close> over the local \<^verbatim>\<open>buffer\<close>, pushing onto \<^verbatim>\<open>result\<close>.
  Each successful parse reads the clock once; \<open>now i\<close> is the reading taken by the
  parse that starts at index \<open>i\<close> (an index is parsed at most once per call, so any
  sequence of readings is some \<open>now\<close>).
\<close>

function scan_frames ::
  "(u8 list \<Rightarrow> u8) \<Rightarrow> (nat \<Rightarrow> int) \<Rightarrow> u8 list \<Rightarrow> nat \<Rightarrow> nat \<Rightarrow> SensorData list \<Rightarrow> SensorData list" where
  "scan_frames calculate_crc8 now buffer n index result =
    (if index < n then
       (if index + 1 < n \<and> buffer ! index = 0xAA \<and> buffer ! (index + 1) = 0x55 then
          (case parse_binary_sensor_data calculate_crc8 (now index) buffer index of
             Inr (data, next_index) \<Rightarrow>
               scan_frames calculate_crc8 now buffer n next_index (result @ [data])
           | Inl _ \<Rightarrow>
               scan_frames calculate_crc8 now buffer n (index + 1) result)
        else scan_frames calculate_crc8 now buffer n (index + 1) result)
     else result)"
  by pat_completeness auto
termination
  by (relation "measure (\<lambda>(c, t, b, n, i, r). n - i)")
     (auto simp: parse_binary_sensor_data_def Let_def split: if_splits)

declare scan_frames.simps [simp del]

text \<open>
  What \<^verbatim>\<open>port.read(&mut buffer)\<close> can do: deliver some bytes into the front of the
  buffer, time out, or fail with another I/O error.
\<close>

datatype io_error = Disconnected | OtherIo string

datatype port_read = ReadOk "u8 list" | ReadTimedOut | ReadFailed io_error

datatype read_error = Io io_error | Receiver ReceiverError

text \<open>
  \<^verbatim>\<open>let mut buffer = [0u8; 4096]\<close> after the read: the received bytes (at most 4096 fit),
  the rest still zero.
\<close>

definition fill_buffer :: "u8 list \<Rightarrow> u8 list" where
  "fill_buffer bytes = take 4096 bytes @ replicate (4096 - length bytes) 0"

text \<open>\<^verbatim>\<open>read_binary_sensor_data(port)\<close>,
    given what the one \<^verbatim>\<open>port.read\<close> does.\<close>

definition read_binary_sensor_data ::
  "(u8 list \<Rightarrow> u8) \<Rightarrow> (nat \<Rightarrow> int) \<Rightarrow> port_read \<Rightarrow> read_error + SensorData list" where
  "read_binary_sensor_data calculate_crc8 now port =
    (case port of
       ReadTimedOut \<Rightarrow> Inr []
     | ReadFailed e \<Rightarrow> Inl (Io e)
     | ReadOk bytes \<Rightarrow>
         (let buffer = fill_buffer bytes; n = min (length bytes) 4096
          in if n = 0 then Inr []
             else Inr (scan_frames calculate_crc8 now buffer n 0 [])))"

section \<open>Transmitter: cxd5602pwbimu-logger.ino\<close>

subsection \<open>printf conversions\<close>

text \<open>
  \<^verbatim>\<open>%08x\<close> of a 32-bit value: lower-case hexadecimal,
      zero-padded to width eight (a
  32-bit value never needs more than eight digits).
\<close>

definition hex_digit :: "nat \<Rightarrow> char" where
  "hex_digit d = ''0123456789abcdef'' ! d"

fun hex_digits :: "nat \<Rightarrow> nat \<Rightarrow> string" where
  "hex_digits 0 v = []"
| "hex_digits (Suc k) v = hex_digits k (v div 16) @ [hex_digit (v mod 16)]"

definition hex08 :: "u32 \<Rightarrow> string" where
  "hex08 w = hex_digits 8 (unat w)"

text \<open>\<^verbatim>\<open>%d\<close> of an \<^verbatim>\<open>int\<close>.\<close>

fun dec_nat :: "nat \<Rightarrow> string" where
  "dec_nat n = (if n < 10 then [hex_digit n] else dec_nat (n div 10) @ [hex_digit (n mod 10)])"

declare dec_nat.simps [simp del]

definition dec :: "int \<Rightarrow> string" where
  "dec i = (if i < 0 then CHR ''-'' # dec_nat (nat (- i)) else dec_nat (nat i))"

subsection \<open>Log functions\<close>

datatype logfunc_t = Log2uart | Log2filebin

text \<open>One iteration of the loop of \<^verbatim>\<open>log2uart\<close>: the \<^verbatim>\<open>printf\<close> of \<^verbatim>\<open>dat[i]\<close>.\<close>

definition uart_line :: "cxd5602pwbimu_data_t \<Rightarrow> string" where
  "uart_line d =
     hex08 (timestamp d) @ '','' @ hex08 (to_bits (temp d)) @ '','' @
     hex08 (to_bits (gx d)) @ '','' @ hex08 (to_bits (gy d)) @ '','' @
     hex08 (to_bits (gz d)) @ '','' @ hex08 (to_bits (ax d)) @ '','' @
     hex08 (to_bits (ay d)) @ '','' @ hex08 (to_bits (az d)) @ [CHR 0x0A]"

text \<open>
  \<^verbatim>\<open>log2uart(dat, num,
      arg)\<close>: the text written to the UART. \<open>dat\<close> is \<^verbatim>\<open>g_data\<close>
  (\<^verbatim>\<open>MAX_NFIFO\<close> entries) and every caller passes \<open>num \<le> MAX_NFIFO\<close>; the model prints
  the entries that exist.
\<close>

definition log2uart :: "cxd5602pwbimu_data_t list \<Rightarrow> int \<Rightarrow> string" where
  "log2uart dat num = concat (map uart_line (take (nat num) dat))"

text \<open>\<^verbatim>\<open>log2filebin\<close>: \<^verbatim>\<open>fwrite\<close> of \<open>num\<close> raw records; the file is the list of records written.\<close>

definition log2filebin :: "cxd5602pwbimu_data_t list \<Rightarrow> int \<Rightarrow> cxd5602pwbimu_data_t list" where
  "log2filebin dat num = take (nat num) dat"

text \<open>Calling through the \<^verbatim>\<open>logfunc_t\<close> pointer: (UART text,
    records written to the file).\<close>

definition call_logfunc ::
  "logfunc_t \<Rightarrow> cxd5602pwbimu_data_t list \<Rightarrow> int \<Rightarrow> string \<times> cxd5602pwbimu_data_t list" where
  "call_logfunc func dat num =
     (case func of Log2uart \<Rightarrow> (log2uart dat num,
         []) | Log2filebin \<Rightarrow> ([], log2filebin dat num))"

subsection \<open>The sensor driver as seen by the sketch\<close>

datatype ioctl_req =
  SNIOC_SSAMPRATE int | SNIOC_SDRANGE int int | SNIOC_SFIFOTHRESH int | SNIOC_ENABLE int

text \<open>
  \<^verbatim>\<open>start_sensing\<close>: four \<^verbatim>\<open>ioctl\<close> calls,
      stopping at the first that fails. The
  driver is the parameter \<open>ioctl\<close>, giving for a request its return value and the
  \<^verbatim>\<open>errno\<close> it leaves. Result: (return value, text printed, requests issued).
\<close>

definition start_sensing ::
  "(ioctl_req \<Rightarrow> int \<times> int) \<Rightarrow> int \<Rightarrow> int \<Rightarrow> int \<Rightarrow> int \<Rightarrow> int \<times> string \<times> ioctl_req list" where
  "start_sensing ioctl rate adrange gdrange nfifos =
    (if fst (ioctl (SNIOC_SSAMPRATE rate)) \<noteq> 0 then
       (1, ''ERROR: Set sampling rate failed. '' @ dec (snd (ioctl (SNIOC_SSAMPRATE rate))) @ [CHR 0x0A],
        [SNIOC_SSAMPRATE rate])
     else if fst (ioctl (SNIOC_SDRANGE adrange gdrange)) \<noteq> 0 then
       (1, ''ERROR: Set dynamic range failed. '' @ dec (snd (ioctl (SNIOC_SDRANGE adrange gdrange))) @ [CHR 0x0A],
        [SNIOC_SSAMPRATE rate, SNIOC_SDRANGE adrange gdrange])
     else if fst (ioctl (SNIOC_SFIFOTHRESH nfifos)) \<noteq> 0 then
       (1, ''ERROR: Set sampling rate failed. '' @ dec (snd (ioctl (SNIOC_SFIFOTHRESH nfifos))) @ [CHR 0x0A],
        [SNIOC_SSAMPRATE rate, SNIOC_SDRANGE adrange gdrange, SNIOC_SFIFOTHRESH nfifos])
     else if fst (ioctl (SNIOC_ENABLE 1)) \<noteq> 0 then
       (1, ''ERROR: Enable failed. '' @ dec (snd (ioctl (SNIOC_ENABLE 1))) @ [CHR 0x0A],
        [SNIOC_SSAMPRATE rate, SNIOC_SDRANGE adrange gdrange, SNIOC_SFIFOTHRESH nfifos,
            SNIOC_ENABLE 1])
     else
       (0, [],
        [SNIOC_SSAMPRATE rate, SNIOC_SDRANGE adrange gdrange, SNIOC_SFIFOTHRESH nfifos,
            SNIOC_ENABLE 1]))"

text \<open>
  The IMU device is the list of what its successive \<^verbatim>\<open>read(fd, g_data,
      ...)\<close> calls do:
  the return value and the contents of \<^verbatim>\<open>g_data\<close> afterwards. Once the list is used up
  a read returns 0.
\<close>

type_synonym imu_read = "int \<times> cxd5602pwbimu_data_t list"

definition dev_read :: "imu_read list \<Rightarrow> imu_read \<times> imu_read list" where
  "dev_read dev = (case dev of [] \<Rightarrow> ((0, []), []) | r # rest \<Rightarrow> (r, rest))"

text \<open>
  The samples a read delivered: as many whole records of \<^verbatim>\<open>g_data\<close> as the bytes it
  returned (\<^verbatim>\<open>sizeof(g_data[0])\<close> is 32); none when it failed.
\<close>

definition samples_read :: "imu_read \<Rightarrow> cxd5602pwbimu_data_t list" where
  "samples_read rd = take (nat (fst rd div 32)) (snd rd)"

text \<open>
  The loop of \<^verbatim>\<open>drop_50msdata\<close>: \<^verbatim>\<open>while (cnt) { read(...); cnt -= nfifo; }\<close>. The
  result of each read is ignored. The loop ends only when \<open>cnt\<close> reaches 0 exactly.
\<close>

partial_function (option) drop_loop :: "int \<Rightarrow> int \<Rightarrow> imu_read list \<Rightarrow> imu_read list option" where
  "drop_loop cnt nfifo dev =
     (if cnt \<noteq> 0 then drop_loop (cnt - nfifo) nfifo (snd (dev_read dev)) else Some dev)"

text \<open>
  The number of samples \<^verbatim>\<open>drop_50msdata\<close> sets out to drop. C's \<^verbatim>\<open>/\<close> truncates
  towards zero (\<open>sdiv\<close>); \<open>nfifo = 0\<close> divides by zero,
      so there is no count then.
  C \<^verbatim>\<open>int\<close> arithmetic is taken without overflow.
\<close>

definition drop_count :: "int \<Rightarrow> int \<Rightarrow> int option" where
  "drop_count samprate nfifo =
    (if nfifo = 0 then None
     else let cnt = samprate sdiv 20;
              cnt = ((cnt + nfifo - 1) sdiv nfifo) * nfifo
          in Some (if cnt = 0 then nfifo else cnt))"

text \<open>\<^verbatim>\<open>drop_50msdata(fd, samprate,
    nfifo)\<close>: the device after the dropped reads.\<close>

definition drop_50msdata :: "int \<Rightarrow> int \<Rightarrow> imu_read list \<Rightarrow> imu_read list option" where
  "drop_50msdata samprate nfifo dev =
    (case drop_count samprate nfifo of
       None \<Rightarrow> None
     | Some cnt \<Rightarrow> drop_loop cnt nfifo dev)"

subsection \<open>The capture loop\<close>

text \<open>
  One \<^verbatim>\<open>poll(fds, 2, 1000)\<close>: its return value (0 on timeout,
      negative on failure), the
  \<^verbatim>\<open>POLLIN\<close> flags of the IMU and of stdin,
      and the value of \<^verbatim>\<open>c\<close> after the one-byte
  read from stdin.
\<close>

record poll_event =
  poll_ret :: int
  imu_pollin :: bool
  stdin_pollin :: bool
  key :: int

text \<open>\<^verbatim>\<open>sizeof(g_data[0])\<close>: a \<^verbatim>\<open>uint32_t\<close> and seven \<^verbatim>\<open>float\<close>s.\<close>

definition sizeof_data :: "32 word" where
  "sizeof_data = 32"

text \<open>
  The result of a run of the loop: what it returned, the text on the UART and the
  records written to the file.
\<close>

record dump_result =
  returned :: int
  uart :: string
  fwritten :: "cxd5602pwbimu_data_t list"

definition emit :: "string \<Rightarrow> cxd5602pwbimu_data_t list \<Rightarrow> dump_result \<Rightarrow> dump_result" where
  "emit u f r = r\<lparr>uart := u @ uart r, fwritten := f @ fwritten r\<rparr>"

text \<open>
  \<^verbatim>\<open>dump_data(fd, nfifo, disp, func,
      arg)\<close>. The events are what the successive
  \<^verbatim>\<open>poll\<close> calls report; after the last listed event nothing more arrives, so the next
  \<^verbatim>\<open>poll\<close> times out and returns 0. The test \<^verbatim>\<open>ret == sizeof(g_data[0]) * nfifo\<close>
  compares in \<^verbatim>\<open>size_t\<close> (32 bits on this target).
\<close>

fun dump_data ::
  "int \<Rightarrow> bool \<Rightarrow> logfunc_t \<Rightarrow> poll_event list \<Rightarrow> imu_read list \<Rightarrow> dump_result" where
  "dump_data nfifo disp func [] dev =
     \<lparr>returned = -1, uart = ''Poll error'' @ [CHR 0x0A], fwritten = []\<rparr>"
| "dump_data nfifo disp func (ev # evs) dev =
    (if poll_ret ev \<le> 0 then
       \<lparr>returned = -1, uart = ''Poll error'' @ [CHR 0x0A], fwritten = []\<rparr>
     else if imu_pollin ev then
       (let ret = fst (fst (dev_read dev)); g_data = snd (fst (dev_read dev));
            dev' = snd (dev_read dev)
        in if (word_of_int ret :: 32 word) = sizeof_data * word_of_int nfifo then
             emit (fst (call_logfunc func g_data nfifo)) (snd (call_logfunc func g_data nfifo))
               (emit (if disp \<and> func \<noteq> Log2uart then log2uart g_data nfifo else []) []
                 (if stdin_pollin ev \<and> key ev = 113 then
                    \<lparr>returned = 0, uart = [], fwritten = []\<rparr>
                  else dump_data nfifo disp func evs dev'))
           else
             \<lparr>returned = -1, uart = ''Read error : '' @ dec ret @ [CHR 0x0A], fwritten = []\<rparr>)
     else if stdin_pollin ev \<and> key ev = 113 then
       \<lparr>returned = 0, uart = [], fwritten = []\<rparr>
     else dump_data nfifo disp func evs dev)"

subsection \<open>The sketch's entry point\<close>

text \<open>
  Everything \<^verbatim>\<open>setup()\<close> takes from outside: the return values of
  \<^verbatim>\<open>board_cxd5602pwbimu_initialize(5)\<close> and of \<^verbatim>\<open>open("/dev/imu0", O_RDONLY)\<close>, the
  driver's answers to \<^verbatim>\<open>ioctl\<close>,
      the IMU reads and the poll events. \<^verbatim>\<open>setup\<close> has
  no parameter and reads no argument vector. (\<^verbatim>\<open>Serial.begin\<close> and the wait for the
  serial port are hardware set-up and are left out.)
\<close>

record world =
  board_init :: int
  open_fd :: int
  ioctl_of :: "ioctl_req \<Rightarrow> int \<times> int"
  imu :: "imu_read list"
  polls :: "poll_event list"

record run =
  uart_out :: string
  file_out :: "cxd5602pwbimu_data_t list"
  ioctls :: "ioctl_req list"

definition banner :: "int \<Rightarrow> int \<Rightarrow> int \<Rightarrow> int \<Rightarrow> string \<Rightarrow> string" where
  "banner samprate arange grange fifo outdev =
     ''Start IMU Data logging: Rate:'' @ dec samprate @ '' Accel DRagne:'' @ dec arange @
     '' Gyro DRange:'' @ dec grange @ '' Fifo:'' @ dec fifo @ '' Outdev:'' @ outdev @ [CHR 0x0A]"

text \<open>
  \<^verbatim>\<open>setup()\<close>. \<open>None\<close>: \<^verbatim>\<open>drop_50msdata\<close> does not return. The return value of
  \<^verbatim>\<open>dump_data\<close> is ignored,
      and \<^verbatim>\<open>fp\<close> stays \<^verbatim>\<open>NULL\<close>.
\<close>

definition setup_ino :: "world \<Rightarrow> run option" where
  "setup_ino w =
    (let samprate = 960; arange = 16; grange = 500; fifo = 4; disp = False;
         outdev = ''uart''; logfunc = Log2uart
     in if board_init w < 0 then
          Some \<lparr>uart_out = ''ERROR: Failed to initialize CXD5602PWBIMU.'' @ [CHR 0x0A],
                file_out = [], ioctls = []\<rparr>
        else if open_fd w < 0 then
          Some \<lparr>uart_out = ''Could not open the device:'' @ dec (open_fd w) @ [CHR 0x0A],
                file_out = [], ioctls = []\<rparr>
        else
          (let started = start_sensing (ioctl_of w) samprate arange grange fifo;
               out = banner samprate arange grange fifo outdev @ fst (snd started)
           in if fst started < 0 then
                Some \<lparr>uart_out = out @ ''Sensor start error'' @ [CHR 0x0A],
                      file_out = [], ioctls = snd (snd started)\<rparr>
              else
                (case drop_50msdata samprate fifo (imu w) of
                   None \<Rightarrow> None
                 | Some dev \<Rightarrow>
                     (let r = dump_data fifo disp logfunc (polls w) dev
                      in Some \<lparr>uart_out = out @ uart r, file_out = fwritten r,
                               ioctls = snd (snd started)\<rparr>))))"

section \<open>Parts the repository names but does not contain\<close>

subsection \<open>The binary frame layout\<close>

text \<open>\<^verbatim>\<open>u32::to_le_bytes\<close>,
    the inverse of \<^const>\<open>from_le_bytes\<close>.\<close>

definition to_le_bytes :: "u32 \<Rightarrow> u8 list" where
  "to_le_bytes w = [ucast w, ucast (drop_bit 8 w), ucast (drop_bit 16 w), ucast (drop_bit 24 w)]"

text \<open>
  Modelled from the spec: the transmitter has no binary encoder; the layout is the
  spec's "4-byte little-endian timestamp, seven 4-byte little-endian IEEE-754 floats in
  the same field order" (32 payload bytes), preceded by the sync marker 0xAA55 and
  followed by the CRC-8 of the payload.
\<close>

definition frame_payload :: "cxd5602pwbimu_data_t \<Rightarrow> u8 list" where
  "frame_payload d =
     to_le_bytes (timestamp d) @ to_le_bytes (to_bits (temp d)) @
     to_le_bytes (to_bits (gx d)) @ to_le_bytes (to_bits (gy d)) @
     to_le_bytes (to_bits (gz d)) @ to_le_bytes (to_bits (ax d)) @
     to_le_bytes (to_bits (ay d)) @ to_le_bytes (to_bits (az d))"

text \<open>The whole frame: marker, payload, CRC byte (35 bytes).\<close>

definition binary_frame :: "(u8 list \<Rightarrow> u8) \<Rightarrow> cxd5602pwbimu_data_t \<Rightarrow> u8 list" where
  "binary_frame calculate_crc8 d =
     [0xAA, 0x55] @ frame_payload d @ [calculate_crc8 (frame_payload d)]"

text \<open>The sample a frame decodes to, stamped with the clock reading \<open>ts\<close>.\<close>

definition stamped :: "int \<Rightarrow> cxd5602pwbimu_data_t \<Rightarrow> SensorData" where
  "stamped ts d = cxd5602pwbimu_data_t.extend d \<lparr>system_timestamp = ts\<rparr>"

text \<open>The eight transmitted fields of a decoded sample.\<close>

definition wire :: "SensorData \<Rightarrow> cxd5602pwbimu_data_t" where
  "wire s = cxd5602pwbimu_data_t.truncate s"

text \<open>
  The samples of consecutive frames the first of which starts at index \<open>i\<close> of the
  buffer, each stamped with the clock reading of its parse.
\<close>

fun stamp_frames :: "(nat \<Rightarrow> int) \<Rightarrow> nat \<Rightarrow> cxd5602pwbimu_data_t list \<Rightarrow> SensorData list" where
  "stamp_frames now i [] = []"
| "stamp_frames now i (d # ds) = stamped (now i) d # stamp_frames now (i + 35) ds"

text \<open>
  Modelled from the spec: the repository has no caller of \<^verbatim>\<open>read_binary_sensor_data\<close>;
  the spec's capture loop feeds the decoder once per read and forwards "every resulting
  SensorSample ... in decode order". Feeding a stream in chunks is one call per chunk,
  the samples taken in the order of the calls. \<open>now j\<close> is the clock during call
  \<open>j\<close>. A call that returns an error ends the feeding.
\<close>

fun feed_chunks ::
  "(u8 list \<Rightarrow> u8) \<Rightarrow> (nat \<Rightarrow> nat \<Rightarrow> int) \<Rightarrow> nat \<Rightarrow> u8 list list \<Rightarrow> SensorData list" where
  "feed_chunks calculate_crc8 now j [] = []"
| "feed_chunks calculate_crc8 now j (chunk # chunks) =
     (case read_binary_sensor_data calculate_crc8 (now j) (ReadOk chunk) of
        Inr samples \<Rightarrow> samples @ feed_chunks calculate_crc8 now (Suc j) chunks
      | Inl _ \<Rightarrow> [])"

subsection \<open>CRC-8\<close>

text \<open>
  Modelled from the spec: \<^verbatim>\<open>calculate_crc8\<close> is called by the parser and defined
  nowhere in the repository; the spec calls it "CRC-8: an 8-bit cyclic redundancy check"
  over the 32 payload bytes and fixes no polynomial. This is the bitwise CRC-8, most
  significant bit first,
      with the generator polynomial \<open>poly\<close> (its \<open>x^8\<close> term
  implicit),
      the initial register \<open>init\<close> and the final XOR \<open>xorout\<close> as parameters.
\<close>

definition crc8_shift :: "u8 \<Rightarrow> u8 \<Rightarrow> u8" where
  "crc8_shift poly c = (if bit c 7 then push_bit 1 c XOR poly else push_bit 1 c)"

definition crc8_byte :: "u8 \<Rightarrow> u8 \<Rightarrow> u8 \<Rightarrow> u8" where
  "crc8_byte poly c b = (crc8_shift poly ^^ 8) (c XOR b)"

definition crc8 :: "u8 \<Rightarrow> u8 \<Rightarrow> u8 \<Rightarrow> u8 list \<Rightarrow> u8" where
  "crc8 poly init xorout data = fold (\<lambda>b c. crc8_byte poly c b) data init XOR xorout"

text \<open>Bit \<open>k\<close> of a byte sequence flipped (bit \<open>k mod 8\<close> of byte \<open>k div 8\<close>).\<close>

definition flip_payload_bit :: "nat \<Rightarrow> u8 list \<Rightarrow> u8 list" where
  "flip_payload_bit k bytes = bytes[k div 8 := bytes ! (k div 8) XOR push_bit (k mod 8) 1]"

subsection \<open>The text decoder\<close>

text \<open>
  Modelled from the spec: the receiver's text decoder is not in the repository. The spec:
  "eight comma-separated 8-hex-digit ASCII fields terminated by CR or LF. Field 1 decodes
  as an unsigned 32-bit integer (timestamp); fields 2-8 decode as unsigned 32-bit
  integers and are then bit-reinterpreted as IEEE-754 single-precision floats (temp, gx,
  gy, gz, ax, ay, az)". Hex digits are read in either case.
\<close>

definition hex_value :: "char \<Rightarrow> nat option" where
  "hex_value c =
    (let k = (of_char c :: nat)
     in if 48 \<le> k \<and> k \<le> 57 then Some (k - 48)
        else if 97 \<le> k \<and> k \<le> 102 then Some (k - 87)
        else if 65 \<le> k \<and> k \<le> 70 then Some (k - 55)
        else None)"

fun parse_hex :: "nat \<Rightarrow> string \<Rightarrow> nat option" where
  "parse_hex acc [] = Some acc"
| "parse_hex acc (c # cs) =
     (case hex_value c of None \<Rightarrow> None | Some d \<Rightarrow> parse_hex (16 * acc + d) cs)"

definition parse_field :: "string \<Rightarrow> u32 option" where
  "parse_field s = (if length s = 8 then map_option word_of_nat (parse_hex 0 s) else None)"

fun split_fields :: "string \<Rightarrow> string \<Rightarrow> string list" where
  "split_fields cur [] = [cur]"
| "split_fields cur (c # cs) =
     (if c = CHR '','' then cur # split_fields [] cs else split_fields (cur @ [c]) cs)"

definition decode_text_line :: "int \<Rightarrow> string \<Rightarrow> SensorData option" where
  "decode_text_line system_ts line =
    (case map parse_field (split_fields [] line) of
       [Some t, Some f1, Some f2, Some f3, Some f4, Some f5, Some f6, Some f7] \<Rightarrow>
         Some \<lparr>timestamp = t, temp = from_bits f1, gx = from_bits f2, gy = from_bits f3,
               gz = from_bits f4, ax = from_bits f5, ay = from_bits f6, az = from_bits f7,
               system_timestamp = system_ts\<rparr>
     | _ \<Rightarrow> None)"

text \<open>
  The lines of a text stream: a line ends at a CR or an LF; bytes after the last
  terminator are not yet a line.
\<close>

fun text_lines :: "string \<Rightarrow> string \<Rightarrow> string list" where
  "text_lines cur [] = []"
| "text_lines cur (c # cs) =
     (if c = CHR 0x0D \<or> c = CHR 0x0A then cur # text_lines [] cs
      else text_lines (cur @ [c]) cs)"

text \<open>Decoding a text stream: every line that decodes, in order.\<close>

definition decode_text :: "int \<Rightarrow> string \<Rightarrow> SensorData list" where
  "decode_text system_ts s = List.map_filter (decode_text_line system_ts) (text_lines [] s)"

subsection \<open>The value of a float\<close>

text \<open>
  The number an IEEE-754 single-precision bit pattern stands for: sign bit 31, biased
  exponent bits 30-23, fraction bits 22-0. \<open>None\<close> for infinities and NaNs.
\<close>

definition ieee754_value :: "f32 \<Rightarrow> real option" where
  "ieee754_value x =
    (let w = to_bits x;
         e = unat (drop_bit 23 w AND 0xFF);
         m = unat (w AND 0x7FFFFF);
         sign = (if bit w 31 then - 1 else 1)
     in if e = 255 then None
        else if e = 0 then Some (sign * real m / 2 ^ 149)
        else Some (sign * real (2 ^ 23 + m) * 2 ^ e / 2 ^ 150))"

section \<open>Properties of the transmitter\<close>

subsection \<open>Auxiliary facts\<close>

lemma dec_nat_digit: "n < 10 \<Longrightarrow> dec_nat n = [hex_digit n]"
  by (simp add: dec_nat.simps)

lemma dec_nat_more: "10 \<le> n \<Longrightarrow> dec_nat n = dec_nat (n div 10) @ [hex_digit (n mod 10)]"
  by (subst dec_nat.simps) simp

lemma size_test_iff:
  assumes "- (2 ^ 31) \<le> ret" "ret < 2 ^ 31" "0 \<le> nfifo" "nfifo \<le> 4"
  shows "((word_of_int ret :: 32 word) = sizeof_data * word_of_int nfifo) \<longleftrightarrow> ret = 32 * nfifo"
proof -
  have "sizeof_data * word_of_int nfifo = (word_of_int (32 * nfifo) :: 32 word)"
    by (simp add: sizeof_data_def)
  moreover have "((word_of_int ret :: 32 word) = word_of_int (32 * nfifo)) \<longleftrightarrow> ret = 32 * nfifo"
  proof
    assume "(word_of_int ret :: 32 word) = word_of_int (32 * nfifo)"
    then have "take_bit LENGTH(32) ret = take_bit LENGTH(32) (32 * nfifo)"
      by (rule word_of_int_eq_iff [THEN iffD1])
    then have "ret mod 2 ^ 32 = (32 * nfifo) mod 2 ^ 32"
      by (simp add: take_bit_eq_mod)
    moreover have "(32 * nfifo) mod 2 ^ 32 = 32 * nfifo"
      using assms by simp
    moreover have "ret mod 2 ^ 32 = (if ret < 0 then ret + 2 ^ 32 else ret)"
    proof (cases "ret < 0")
      case True
      have "(ret + 2 ^ 32) mod 2 ^ 32 = ret + 2 ^ 32"
        using assms True by (intro mod_pos_pos_trivial) simp_all
      then show ?thesis using True by simp
    next
      case False
      then show ?thesis using assms by simp
    qed
    ultimately show "ret = 32 * nfifo"
      using assms by (simp split: if_splits)
  qed simp
  ultimately show ?thesis by simp
qed

lemma sdiv_nonneg: "0 \<le> a \<Longrightarrow> 0 < b \<Longrightarrow> a sdiv b = a div (b::int)"
  by (cases "a = 0") (simp_all add: signed_divide_int_def)

lemma snd_dev_read: "snd (dev_read dev) = tl dev"
  by (simp add: dev_read_def split: list.splits)

lemma drop_loop_multiple:
  "0 < f \<Longrightarrow> drop_loop (int j * f) f dev = Some (drop j dev)"
proof (induction j arbitrary: dev)
  case 0
  then show ?case by (subst drop_loop.simps) simp
next
  case (Suc j)
  have "int (Suc j) * f \<noteq> 0" using Suc.prems by simp
  moreover have "int (Suc j) * f - f = int j * f" by (simp add: algebra_simps)
  ultimately have "drop_loop (int (Suc j) * f) f dev = drop_loop (int j * f) f (tl dev)"
    by (subst drop_loop.simps) (simp add: snd_dev_read)
  then show ?case using Suc by (simp add: drop_Suc)
qed

lemma round_up_multiple:
  fixes c f :: int
  assumes "0 \<le> c" "0 < f"
  shows "f dvd ((c + f - 1) div f) * f" "c \<le> ((c + f - 1) div f) * f" "((c + f - 1) div f) * f < c + f"
proof -
  show "f dvd ((c + f - 1) div f) * f" by simp
  have m: "(c + f - 1) = ((c + f - 1) div f) * f + (c + f - 1) mod f" by simp
  have "0 \<le> (c + f - 1) mod f" "(c + f - 1) mod f < f" using assms by simp_all
  with m show "c \<le> ((c + f - 1) div f) * f" "((c + f - 1) div f) * f < c + f" by linarith+
qed

lemma drop_count_eq:
  assumes "0 \<le> r" "0 < f"
  shows "drop_count r f =
           Some (if r div 20 = 0 then f else ((r div 20 + f - 1) div f) * f)"
proof -
  have c: "r sdiv 20 = r div 20" using assms by (simp add: sdiv_nonneg)
  have "0 \<le> r div 20" using assms by simp
  then have d: "(r div 20 + f - 1) sdiv f = (r div 20 + f - 1) div f"
    using assms by (intro sdiv_nonneg) simp_all
  have z: "((r div 20 + f - 1) div f) * f = 0 \<longleftrightarrow> r div 20 = 0"
  proof
    assume "((r div 20 + f - 1) div f) * f = 0"
    with round_up_multiple(2) [of "r div 20" f] assms \<open>0 \<le> r div 20\<close>
    show "r div 20 = 0" by simp
  next
    assume "r div 20 = 0"
    then show "((r div 20 + f - 1) div f) * f = 0" using assms by simp
  qed
  show ?thesis using assms z by (simp add: drop_count_def c d Let_def)
qed


lemma drop_50msdata_eq:
  assumes "0 \<le> r" "0 < f"
  shows "drop_50msdata r f dev =
           Some (drop (nat ((if r div 20 = 0 then f else ((r div 20 + f - 1) div f) * f) div f)) dev)"
proof -
  define q where "q = (if r div 20 = 0 then 1 else (r div 20 + f - 1) div f)"
  have k: "(if r div 20 = 0 then f else ((r div 20 + f - 1) div f) * f) = q * f"
    by (simp add: q_def)
  have "0 \<le> r div 20" using assms by simp
  then have "0 \<le> (r div 20 + f - 1) div f" using assms by (simp add: pos_imp_zdiv_nonneg_iff)
  then have "0 \<le> q" by (simp add: q_def)
  then have "q * f = int (nat q) * f" by simp
  then have "drop_loop (q * f) f dev = Some (drop (nat q) dev)"
    using drop_loop_multiple [of f "nat q" dev] assms by simp
  moreover have "q * f div f = q" using assms by simp
  ultimately show ?thesis
    using assms by (simp add: drop_50msdata_def drop_count_eq k del: of_nat_nat)
qed

lemma drop_50msdata_960_4: "drop_50msdata 960 4 dev = Some (drop 12 dev)"
  using drop_50msdata_eq [of 960 4 dev] by simp

lemma fwritten_dump_data_uart: "fwritten (dump_data nfifo disp Log2uart evs dev) = []"
  by (induction evs arbitrary: dev) (simp_all add: Let_def emit_def call_logfunc_def)

lemma start_sensing_ge0: "0 \<le> fst (start_sensing io r a g f)"
  by (simp add: start_sensing_def)

lemma start_sensing_calls:
  "snd (snd (start_sensing io r a g f)) =
     take (length (snd (snd (start_sensing io r a g f))))
       [SNIOC_SSAMPRATE r, SNIOC_SDRANGE a g, SNIOC_SFIFOTHRESH f, SNIOC_ENABLE 1]"
  by (simp add: start_sensing_def)

lemma banner_fixed:
  "banner 960 16 500 4 ''uart'' =
     ''Start IMU Data logging: Rate:960 Accel DRagne:16 Gyro DRange:500 Fifo:4 Outdev:uart'' @ [CHR 0x0A]"
  by (simp add: banner_def dec_def dec_nat_digit dec_nat_more hex_digit_def)

lemma setup_ino_eq:
  "setup_ino w =
    (if board_init w < 0 then
       Some \<lparr>uart_out = ''ERROR: Failed to initialize CXD5602PWBIMU.'' @ [CHR 0x0A],
             file_out = [], ioctls = []\<rparr>
     else if open_fd w < 0 then
       Some \<lparr>uart_out = ''Could not open the device:'' @ dec (open_fd w) @ [CHR 0x0A],
             file_out = [], ioctls = []\<rparr>
     else
       Some \<lparr>uart_out = banner 960 16 500 4 ''uart'' @
                 fst (snd (start_sensing (ioctl_of w) 960 16 500 4)) @
                 uart (dump_data 4 False Log2uart (polls w) (drop 12 (imu w))),
             file_out = [],
             ioctls = snd (snd (start_sensing (ioctl_of w) 960 16 500 4))\<rparr>)"
  using start_sensing_ge0 [of "ioctl_of w" 960 16 500 4]
  by (simp add: setup_ino_def Let_def drop_50msdata_960_4 fwritten_dump_data_uart
        del: append_assoc)

subsection \<open>The capture loop stops at a read error\<close>

text \<open>
  C8. When the IMU is readable and the \<^verbatim>\<open>read\<close> fails or returns anything but the
  requested \<open>32 * nfifo\<close> bytes,
      \<^verbatim>\<open>dump_data\<close> prints \<^verbatim>\<open>Read error : <ret>\<close> and
  returns -1 at once. The result does not depend on the later events \<open>evs\<close> nor on the
  rest of the device: no further \<^verbatim>\<open>poll\<close> or \<^verbatim>\<open>read\<close> is made, so nothing is retried.
\<close>

theorem dump_data_read_error:
  assumes "0 < poll_ret ev" and "imu_pollin ev"
    and "fst (fst (dev_read dev)) = ret" and "ret \<noteq> 32 * nfifo"
    and "- (2 ^ 31) \<le> ret" and "ret < 2 ^ 31" and "0 \<le> nfifo" and "nfifo \<le> 4"
  shows "dump_data nfifo disp func (ev # evs) dev =
           \<lparr>returned = - 1, uart = ''Read error : '' @ dec ret @ [CHR 0x0A], fwritten = []\<rparr>"
  using assms size_test_iff [of ret nfifo] by (simp add: Let_def)

theorem dump_data_read_error_witness:
  "dump_data 4 False Log2uart
     (\<lparr>poll_ret = 1, imu_pollin = True, stdin_pollin = False, key = 0\<rparr> #
      [\<lparr>poll_ret = 1, imu_pollin = True, stdin_pollin = False, key = 0\<rparr>])
     [(- 1, []), (128, [])] =
   \<lparr>returned = - 1, uart = ''Read error : -1'' @ [CHR 0x0A], fwritten = []\<rparr>"
  using dump_data_read_error [of "\<lparr>poll_ret = 1, imu_pollin = True,
      stdin_pollin = False, key = 0\<rparr>"
      "[(- 1, []), (128, [])]" "- 1" 4 False Log2uart
      "[\<lparr>poll_ret = 1, imu_pollin = True, stdin_pollin = False, key = 0\<rparr>]"]
  by (simp add: dev_read_def dec_def dec_nat_digit hex_digit_def)

subsection \<open>The samples dropped before the capture loop\<close>

lemma hex_digits_numeral:
  "hex_digits (numeral n) v = hex_digits (pred_numeral n) (v div 16) @ [hex_digit (v mod 16)]"
proof -
  have "hex_digits (Suc (pred_numeral n)) v =
          hex_digits (pred_numeral n) (v div 16) @ [hex_digit (v mod 16)]"
    by (rule hex_digits.simps)
  then show ?thesis by (simp only: numeral_eq_Suc [symmetric])
qed

lemma length_concat_const:
  "(\<forall>x\<in>set xs. length (g x) = m) \<Longrightarrow> length (concat (map g xs)) = length xs * m"
  by (induction xs) simp_all

lemma length_samples_read:
  assumes "fst rd = 32 * f" and "0 \<le> f" and "nat f \<le> length (snd rd)"
  shows "length (samples_read rd) = nat f"
  using assms by (simp add: samples_read_def)

lemma dropped_samples_count:
  assumes "j \<le> length dev" and "0 \<le> f"
    and "\<forall>rd\<in>set (take j dev). fst rd = 32 * f \<and> nat f \<le> length (snd rd)"
  shows "length (concat (map samples_read (take j dev))) = j * nat f"
proof -
  have "\<forall>rd\<in>set (take j dev). length (samples_read rd) = nat f"
    using assms(2,3) by (auto intro: length_samples_read)
  then have "length (concat (map samples_read (take j dev))) = length (take j dev) * nat f"
    by (rule length_concat_const)
  then show ?thesis using assms(1) by simp
qed

text \<open>
  C9. For a sampling rate \<open>r \<ge> 0\<close> and a FIFO depth \<open>f > 0\<close> (within C's \<^verbatim>\<open>int\<close>),
  \<^verbatim>\<open>drop_50msdata\<close> returns after \<open>k / f\<close> reads of \<open>f\<close> samples each, where \<open>k\<close>
  is \<open>r / 20\<close> rounded up to a multiple of \<open>f\<close>,
      and \<open>k = f\<close> when \<open>r / 20 = 0\<close>;
  when each of these reads delivers its \<open>f\<close> samples, the samples dropped are exactly
  \<open>k\<close>. The sketch's entry point does this with rate 960 and FIFO 4 before the capture
  loop: once the board and the device are open, the capture loop runs on the device as
  it is after exactly 12 reads, that is 48 samples, and what those 12 reads deliver has
  no influence on anything the sketch outputs.
\<close>

theorem drop_50msdata_rounds_up:
  fixes r f :: int
  assumes "0 \<le> r" and "0 < f" and "r div 20 + f \<le> 2 ^ 31"
  defines "k \<equiv> (if r div 20 = 0 then f else ((r div 20 + f - 1) div f) * f)"
  shows "drop_count r f = Some k \<and> f dvd k \<and> r div 20 \<le> k \<and> k < r div 20 + f + 1 \<and>
         (r div 20 \<noteq> 0 \<longrightarrow> k < r div 20 + f) \<and>
         drop_50msdata r f dev = Some (drop (nat (k div f)) dev) \<and>
         (nat (k div f) \<le> length dev \<and>
          (\<forall>rd\<in>set (take (nat (k div f)) dev). fst rd = 32 * f \<and> nat f \<le> length (snd rd)) \<longrightarrow>
            int (length (concat (map samples_read (take (nat (k div f)) dev)))) = k) \<and>
         drop_count 960 4 = Some 48 \<and>
         drop_50msdata 960 4 dev = Some (drop 12 dev) \<and>
         (0 \<le> board_init w \<and> 0 \<le> open_fd w \<longrightarrow>
            setup_ino w =
              Some \<lparr>uart_out =
                      ''Start IMU Data logging: Rate:960 Accel DRagne:16 Gyro DRange:500 Fifo:4 Outdev:uart'' @
                      [CHR 0x0A] @ fst (snd (start_sensing (ioctl_of w) 960 16 500 4)) @
                      uart (dump_data 4 False Log2uart (polls w) (drop 12 (imu w))),
                    file_out = [],
                    ioctls = snd (snd (start_sensing (ioctl_of w) 960 16 500 4))\<rparr>) \<and>
         (12 \<le> length (imu w) \<and>
          (\<forall>rd\<in>set (take 12 (imu w)). fst rd = 128 \<and> 4 \<le> length (snd rd)) \<longrightarrow>
            length (concat (map samples_read (take 12 (imu w)))) = 48) \<and>
         (length pre = 12 \<and> length pre' = 12 \<longrightarrow>
            setup_ino (w\<lparr>imu := pre @ rest\<rparr>) = setup_ino (w\<lparr>imu := pre' @ rest\<rparr>))"
proof -
  have c: "0 \<le> r div 20" using assms by simp
  have 1: "drop_count r f = Some k"
    using assms by (simp add: drop_count_eq k_def)
  have 2: "f dvd k" by (simp add: k_def)
  have 3: "r div 20 \<le> k" "k < r div 20 + f + 1" "r div 20 \<noteq> 0 \<longrightarrow> k < r div 20 + f"
    using round_up_multiple [OF c \<open>0 < f\<close>] assms(2) by (auto simp: k_def)
  have 4: "drop_50msdata r f dev = Some (drop (nat (k div f)) dev)"
    unfolding k_def using assms(1,2) by (rule drop_50msdata_eq)
  have 5: "int (length (concat (map samples_read (take (nat (k div f)) dev)))) = k"
    if "nat (k div f) \<le> length dev"
      "\<forall>rd\<in>set (take (nat (k div f)) dev). fst rd = 32 * f \<and> nat f \<le> length (snd rd)"
  proof -
    have "0 \<le> k" using 3(1) c by simp
    then have "0 \<le> k div f" using assms(2) by (simp add: pos_imp_zdiv_nonneg_iff)
    moreover have "k div f * f = k" using 2 by simp
    moreover have "length (concat (map samples_read (take (nat (k div f)) dev))) =
                     nat (k div f) * nat f"
      using that assms(2) by (intro dropped_samples_count) simp_all
    ultimately show ?thesis using assms(2) by simp
  qed
  have 6: "drop_count 960 4 = Some 48"
    by (simp add: drop_count_eq)
  have 7: "setup_ino w =
              Some \<lparr>uart_out =
                      ''Start IMU Data logging: Rate:960 Accel DRagne:16 Gyro DRange:500 Fifo:4 Outdev:uart'' @
                      [CHR 0x0A] @ fst (snd (start_sensing (ioctl_of w) 960 16 500 4)) @
                      uart (dump_data 4 False Log2uart (polls w) (drop 12 (imu w))),
                    file_out = [],
                    ioctls = snd (snd (start_sensing (ioctl_of w) 960 16 500 4))\<rparr>"
    if "0 \<le> board_init w" "0 \<le> open_fd w"
    using that by (simp add: setup_ino_eq banner_fixed)
  have 8: "length (concat (map samples_read (take 12 (imu w)))) = 48"
    if "12 \<le> length (imu w)"
      "\<forall>rd\<in>set (take 12 (imu w)). fst rd = 128 \<and> 4 \<le> length (snd rd)"
    using dropped_samples_count [of 12 "imu w" 4] that by simp
  have 9: "length pre = 12 \<and> length pre' = 12 \<longrightarrow>
            setup_ino (w\<lparr>imu := pre @ rest\<rparr>) = setup_ino (w\<lparr>imu := pre' @ rest\<rparr>)"
    by (simp add: setup_ino_eq)
  show ?thesis
    using 1 2 3 4 5 6 7 8 9 drop_50msdata_960_4 [of dev] by blast
qed

theorem drop_50msdata_rounds_up_witness:
  "drop_count 1920 3 = Some 96 \<and>
   drop_50msdata 1920 3 (replicate 40 (96, replicate 3 \<lparr>timestamp = 1,
       temp = from_bits 0, gx = from_bits 0, gy = from_bits 0, gz = from_bits 0,
       ax = from_bits 0, ay = from_bits 0, az = from_bits 0\<rparr>)) =
     Some (replicate 8 (96, replicate 3 \<lparr>timestamp = 1, temp = from_bits 0,
         gx = from_bits 0, gy = from_bits 0, gz = from_bits 0, ax = from_bits 0,
         ay = from_bits 0, az = from_bits 0\<rparr>)) \<and>
   int (length (concat (map samples_read (take 32 (replicate 40 (96,
       replicate 3 \<lparr>timestamp = 1, temp = from_bits 0, gx = from_bits 0,
       gy = from_bits 0, gz = from_bits 0, ax = from_bits 0, ay = from_bits 0,
       az = from_bits 0\<rparr>)))))) = 96 \<and>
   length (concat (map samples_read (take 12 (imu \<lparr>board_init = 0, open_fd = 3,
       ioctl_of = (\<lambda>_. (0, 0)), imu = replicate 12 (128,
       replicate 4 \<lparr>timestamp = 1, temp = from_bits 0, gx = from_bits 0,
       gy = from_bits 0, gz = from_bits 0, ax = from_bits 0, ay = from_bits 0,
       az = from_bits 0\<rparr>) @ [(128, replicate 4 \<lparr>timestamp = 0x123,
       temp = from_bits 0x41200000, gx = from_bits 0x3F800000, gy = from_bits 0x3F800000,
       gz = from_bits 0x3F800000, ax = from_bits 0x3F800000, ay = from_bits 0x3F800000,
       az = from_bits 0x3F800000\<rparr>)], polls = [\<lparr>poll_ret = 2, imu_pollin = True,
       stdin_pollin = True, key = 113\<rparr>]\<rparr>)))) = 48 \<and>
   setup_ino \<lparr>board_init = 0, open_fd = 3, ioctl_of = (\<lambda>_. (0, 0)),
       imu = replicate 12 (128, replicate 4 \<lparr>timestamp = 1, temp = from_bits 0,
       gx = from_bits 0, gy = from_bits 0, gz = from_bits 0, ax = from_bits 0,
       ay = from_bits 0, az = from_bits 0\<rparr>) @ [(128,
       replicate 4 \<lparr>timestamp = 0x123, temp = from_bits 0x41200000,
       gx = from_bits 0x3F800000, gy = from_bits 0x3F800000, gz = from_bits 0x3F800000,
       ax = from_bits 0x3F800000, ay = from_bits 0x3F800000,
       az = from_bits 0x3F800000\<rparr>)], polls = [\<lparr>poll_ret = 2, imu_pollin = True,
       stdin_pollin = True, key = 113\<rparr>]\<rparr> =
     Some \<lparr>uart_out = ''Start IMU Data logging: Rate:960 Accel DRagne:16 Gyro DRange:500 Fifo:4 Outdev:uart'' @ [CHR 0x0A] @
             concat (replicate 4 (''00000123,41200000,3f800000,3f800000,3f800000,3f800000,3f800000,3f800000'' @ [CHR 0x0A])),
           file_out = [],
           ioctls = [SNIOC_SSAMPRATE 960, SNIOC_SDRANGE 16 500, SNIOC_SFIFOTHRESH 4,
                     SNIOC_ENABLE 1]\<rparr> \<and>
   setup_ino \<lparr>board_init = 0, open_fd = 3, ioctl_of = (\<lambda>_. (0, 0)),
       imu = replicate 12 (128, replicate 4 \<lparr>timestamp = 1, temp = from_bits 0,
       gx = from_bits 0, gy = from_bits 0, gz = from_bits 0, ax = from_bits 0,
       ay = from_bits 0, az = from_bits 0\<rparr>) @ [(128,
       replicate 4 \<lparr>timestamp = 0x123, temp = from_bits 0x41200000,
       gx = from_bits 0x3F800000, gy = from_bits 0x3F800000, gz = from_bits 0x3F800000,
       ax = from_bits 0x3F800000, ay = from_bits 0x3F800000,
       az = from_bits 0x3F800000\<rparr>)], polls = [\<lparr>poll_ret = 2, imu_pollin = True,
       stdin_pollin = True, key = 113\<rparr>]\<rparr> = setup_ino \<lparr>board_init = 0,
       open_fd = 3, ioctl_of = (\<lambda>_. (0, 0)), imu = replicate 12 (- 1, []) @ [(128,
       replicate 4 \<lparr>timestamp = 0x123, temp = from_bits 0x41200000,
       gx = from_bits 0x3F800000, gy = from_bits 0x3F800000, gz = from_bits 0x3F800000,
       ax = from_bits 0x3F800000, ay = from_bits 0x3F800000,
       az = from_bits 0x3F800000\<rparr>)], polls = [\<lparr>poll_ret = 2, imu_pollin = True,
       stdin_pollin = True, key = 113\<rparr>]\<rparr>"
  using drop_50msdata_rounds_up [where r = 1920 and f = 3
      and dev = "replicate 40 (96, replicate 3 \<lparr>timestamp = 1, temp = from_bits 0,
          gx = from_bits 0, gy = from_bits 0, gz = from_bits 0, ax = from_bits 0,
          ay = from_bits 0, az = from_bits 0\<rparr>)"
      and pre = "replicate 12 (128, replicate 4 \<lparr>timestamp = 1, temp = from_bits 0,
          gx = from_bits 0, gy = from_bits 0, gz = from_bits 0, ax = from_bits 0,
          ay = from_bits 0, az = from_bits 0\<rparr>)" and pre' = "replicate 12 (- 1, [])"
      and w = "\<lparr>board_init = 0, open_fd = 3, ioctl_of = (\<lambda>_. (0, 0)),
          imu = replicate 12 (128, replicate 4 \<lparr>timestamp = 1, temp = from_bits 0,
          gx = from_bits 0, gy = from_bits 0, gz = from_bits 0, ax = from_bits 0,
          ay = from_bits 0, az = from_bits 0\<rparr>) @ [(128,
          replicate 4 \<lparr>timestamp = 0x123, temp = from_bits 0x41200000,
          gx = from_bits 0x3F800000, gy = from_bits 0x3F800000, gz = from_bits 0x3F800000,
          ax = from_bits 0x3F800000, ay = from_bits 0x3F800000,
          az = from_bits 0x3F800000\<rparr>)], polls = [\<lparr>poll_ret = 2,
          imu_pollin = True, stdin_pollin = True, key = 113\<rparr>]\<rparr>"
      and rest = "[(128, replicate 4 \<lparr>timestamp = 0x123, temp = from_bits 0x41200000,
          gx = from_bits 0x3F800000, gy = from_bits 0x3F800000, gz = from_bits 0x3F800000,
          ax = from_bits 0x3F800000, ay = from_bits 0x3F800000,
          az = from_bits 0x3F800000\<rparr>)]"]
  by (auto simp: start_sensing_def dev_read_def sizeof_data_def emit_def call_logfunc_def
        log2uart_def uart_line_def hex08_def hex_digits_numeral hex_digit_def)

subsection \<open>The configuration is fixed\<close>

text \<open>
  C10. The entry point takes no arguments and parses none (\<^verbatim>\<open>print_help\<close> is never
  called): for every environment it returns, writes nothing to a file, issues only the
  \<^verbatim>\<open>ioctl\<close> requests of the configuration rate 960, accel range 16,
      gyro range 500,
  FIFO 4, and, once the board and the device are open, announces exactly that
  configuration with output device \<^verbatim>\<open>uart\<close> and runs the capture loop with FIFO 4,
  display off and \<^verbatim>\<open>log2uart\<close> as the log function.
\<close>

theorem setup_fixed_configuration:
  "\<exists>r. setup_ino w = Some r \<and> file_out r = [] \<and>
       ioctls r = take (length (ioctls r))
         [SNIOC_SSAMPRATE 960, SNIOC_SDRANGE 16 500, SNIOC_SFIFOTHRESH 4, SNIOC_ENABLE 1] \<and>
       (0 \<le> board_init w \<and> 0 \<le> open_fd w \<longrightarrow>
          ioctls r = snd (snd (start_sensing (ioctl_of w) 960 16 500 4)) \<and>
          uart_out r =
            ''Start IMU Data logging: Rate:960 Accel DRagne:16 Gyro DRange:500 Fifo:4 Outdev:uart'' @
            [CHR 0x0A] @ fst (snd (start_sensing (ioctl_of w) 960 16 500 4)) @
            uart (dump_data 4 False Log2uart (polls w) (drop 12 (imu w))))"
  by (simp add: setup_ino_eq banner_fixed start_sensing_calls [symmetric])

theorem setup_fixed_configuration_witness:
  "\<exists>r. setup_ino \<lparr>board_init = 0, open_fd = 3, ioctl_of = (\<lambda>_. (0, 0)),
           imu = replicate 12 (128, []) @
             [(128, replicate 4 \<lparr>timestamp = 0x123, temp = from_bits 0x41200000,
                 gx = from_bits 0x3F800000, gy = from_bits 0x3F800000, gz = from_bits 0x3F800000,
                 ax = from_bits 0x3F800000, ay = from_bits 0x3F800000,
                     az = from_bits 0x3F800000\<rparr>)],
           polls = [\<lparr>poll_ret = 2, imu_pollin = True, stdin_pollin = True,
               key = 113\<rparr>]\<rparr> = Some r \<and>
       file_out r = [] \<and>
       ioctls r = take (length (ioctls r))
         [SNIOC_SSAMPRATE 960, SNIOC_SDRANGE 16 500, SNIOC_SFIFOTHRESH 4, SNIOC_ENABLE 1] \<and>
       ioctls r = [SNIOC_SSAMPRATE 960, SNIOC_SDRANGE 16 500, SNIOC_SFIFOTHRESH 4,
           SNIOC_ENABLE 1] \<and>
       uart_out r =
         ''Start IMU Data logging: Rate:960 Accel DRagne:16 Gyro DRange:500 Fifo:4 Outdev:uart'' @
         [CHR 0x0A] @
         concat (replicate 4
           (''00000123,41200000,3f800000,3f800000,3f800000,3f800000,3f800000,3f800000'' @ [CHR 0x0A]))"
  using setup_fixed_configuration [of "\<lparr>board_init = 0, open_fd = 3,
      ioctl_of = (\<lambda>_. (0, 0)),
           imu = replicate 12 (128, []) @
             [(128, replicate 4 \<lparr>timestamp = 0x123, temp = from_bits 0x41200000,
                 gx = from_bits 0x3F800000, gy = from_bits 0x3F800000, gz = from_bits 0x3F800000,
                 ax = from_bits 0x3F800000, ay = from_bits 0x3F800000,
                     az = from_bits 0x3F800000\<rparr>)],
           polls = [\<lparr>poll_ret = 2, imu_pollin = True, stdin_pollin = True,
               key = 113\<rparr>]\<rparr>"]
  by (simp add: start_sensing_def dev_read_def sizeof_data_def emit_def call_logfunc_def
        log2uart_def uart_line_def hex08_def hex_digits_numeral hex_digit_def)

subsection \<open>Timeouts\<close>

text \<open>
  C6, as the claim states it,
      fails for the transmitter's capture loop: a \<^verbatim>\<open>poll\<close>
  that times out (returns 0) makes \<^verbatim>\<open>dump_data\<close> print \<^verbatim>\<open>Poll error\<close> and return -1;
  the data that arrives afterwards is never read.
\<close>

theorem poll_timeout_ends_dump_data:
  "dump_data 4 False Log2uart
     [\<lparr>poll_ret = 0, imu_pollin = False, stdin_pollin = False, key = 0\<rparr>,
      \<lparr>poll_ret = 1, imu_pollin = True, stdin_pollin = False, key = 0\<rparr>]
     [(128, replicate 4 \<lparr>timestamp = 0x123, temp = from_bits 0x41200000,
                 gx = from_bits 0x3F800000, gy = from_bits 0x3F800000, gz = from_bits 0x3F800000,
                 ax = from_bits 0x3F800000, ay = from_bits 0x3F800000,
                     az = from_bits 0x3F800000\<rparr>)] =
   \<lparr>returned = - 1, uart = ''Poll error'' @ [CHR 0x0A], fwritten = []\<rparr>"
  by simp

text \<open>
  C6, amended. In the receiver, a read that times out, or that delivers zero bytes, is a
  normal outcome of \<^verbatim>\<open>read_binary_sensor_data\<close>: an empty list of samples and no error.
  In the transmitter's \<^verbatim>\<open>dump_data\<close>,
      a \<^verbatim>\<open>poll\<close> that times out or fails
  (\<open>ret \<le> 0\<close>) ends the loop with \<^verbatim>\<open>Poll error\<close> and the return value -1.
\<close>

theorem timeout_outcomes:
  "read_binary_sensor_data calculate_crc8 now ReadTimedOut = Inr [] \<and>
   read_binary_sensor_data calculate_crc8 now (ReadOk []) = Inr [] \<and>
   (poll_ret ev \<le> 0 \<longrightarrow>
      dump_data nfifo disp func (ev # evs) dev =
        \<lparr>returned = - 1, uart = ''Poll error'' @ [CHR 0x0A], fwritten = []\<rparr>)"
  by (simp add: read_binary_sensor_data_def)

theorem timeout_outcomes_witness:
  "read_binary_sensor_data (crc8 7 0 0) (\<lambda>_. 0) ReadTimedOut = Inr [] \<and>
   read_binary_sensor_data (crc8 7 0 0) (\<lambda>_. 0) (ReadOk []) = Inr [] \<and>
   dump_data 4 False Log2uart
     [\<lparr>poll_ret = 0, imu_pollin = True, stdin_pollin = False, key = 0\<rparr>,
      \<lparr>poll_ret = 1, imu_pollin = True, stdin_pollin = True, key = 113\<rparr>] [(128, [])] =
     \<lparr>returned = - 1, uart = ''Poll error'' @ [CHR 0x0A], fwritten = []\<rparr>"
  using timeout_outcomes [of "crc8 7 0 0" "\<lambda>_. 0"
      "\<lparr>poll_ret = 0, imu_pollin = True, stdin_pollin = False,
          key = 0\<rparr>" 4 False Log2uart
      "[\<lparr>poll_ret = 1, imu_pollin = True, stdin_pollin = True,
          key = 113\<rparr>]" "[(128, [])]"]
  by simp

section \<open>Properties of the receiver\<close>

subsection \<open>Auxiliary facts about the parser and the scanning loop\<close>

lemma from_le_bytes_to_le_bytes:
  "from_le_bytes (ucast w) (ucast (drop_bit 8 w)) (ucast (drop_bit 16 w)) (ucast (drop_bit 24 w)) = w"
proof (rule bit_word_eqI)
  fix n assume "n < LENGTH(32)"
  then consider "n < 8" | "8 \<le> n" "n < 16" | "16 \<le> n" "n < 24" | "24 \<le> n" "n < 32"
    by fastforce
  then show "bit (from_le_bytes (ucast w) (ucast (drop_bit 8 w)) (ucast (drop_bit 16 w))
                (ucast (drop_bit 24 w))) n = bit w n"
    by cases (auto simp: from_le_bytes_def bit_simps)
qed

lemma bit_u8_high: "8 \<le> k \<Longrightarrow> \<not> bit (a :: u8) k"
  using bit_imp_le_length [of a k] by auto

lemma to_le_bytes_from_le_bytes:
  "to_le_bytes (from_le_bytes a b c d) = [a, b, c, d]"
  unfolding from_le_bytes_def to_le_bytes_def
  by (auto intro!: bit_word_eqI simp: bit_simps bit_u8_high)

lemma length_to_le_bytes [simp]: "length (to_le_bytes w) = 4"
  by (simp add: to_le_bytes_def)

lemma length_frame_payload [simp]: "length (frame_payload d) = 32"
  by (simp add: frame_payload_def)

lemma length_binary_frame [simp]: "length (binary_frame c d) = 35"
  by (simp add: binary_frame_def)


lemma stamped_eq:
  "stamped ts d = \<lparr>timestamp = timestamp d, temp = temp d, gx = gx d, gy = gy d, gz = gz d,
                     ax = ax d, ay = ay d, az = az d, system_timestamp = ts\<rparr>"
  by (simp add: stamped_def cxd5602pwbimu_data_t.extend_def)

lemma wire_stamped [simp]: "wire (stamped ts d) = d"
  by (cases d) (simp add: wire_def stamped_def cxd5602pwbimu_data_t.defs)

lemma parse_binary_frame_0:
  "parse_binary_sensor_data crc ts (binary_frame crc d @ post) 0 = Inr (stamped ts d, 35)"
  unfolding parse_binary_sensor_data_def Let_def stamped_eq
  by (simp add: binary_frame_def frame_payload_def to_le_bytes_def subslice_def
        from_le_bytes_to_le_bytes)

lemma parse_shift:
  "parse_binary_sensor_data crc ts (pre @ buffer) (length pre + i) =
     map_sum id (\<lambda>(s, j). (s, length pre + j)) (parse_binary_sensor_data crc ts buffer i)"
  unfolding parse_binary_sensor_data_def Let_def
  by (simp add: nth_append subslice_def add.assoc)

lemma parse_binary_frame_at:
  "parse_binary_sensor_data crc ts (pre @ binary_frame crc d @ post) (length pre) =
     Inr (stamped ts d, length pre + 35)"
  using parse_shift [of crc ts pre "binary_frame crc d @ post" 0]
  by (simp add: parse_binary_frame_0)


lemma scan_frames_end:
  "\<not> index < n \<Longrightarrow> scan_frames crc now buffer n index result = result"
  by (subst scan_frames.simps) simp

lemma scan_frames_skip:
  assumes "index < n" and "parse_binary_sensor_data crc (now index) buffer index = Inl e"
  shows "scan_frames crc now buffer n index result = scan_frames crc now buffer n (index + 1) result"
  using assms by (subst scan_frames.simps) simp

lemma scan_frames_no_marker:
  assumes "index < n"
    and "\<not> (index + 1 < n \<and> buffer ! index = 0xAA \<and> buffer ! (index + 1) = 0x55)"
  shows "scan_frames crc now buffer n index result = scan_frames crc now buffer n (index + 1) result"
  using assms by (subst scan_frames.simps) auto

lemma scan_frames_take:
  assumes "index + 1 < n"
    and "parse_binary_sensor_data crc (now index) buffer index = Inr (data, next_index)"
  shows "scan_frames crc now buffer n index result =
           scan_frames crc now buffer n next_index (result @ [data])"
proof -
  have "buffer ! index = 0xAA \<and> buffer ! (index + 1) = 0x55"
    using assms(2) by (auto simp: parse_binary_sensor_data_def Let_def split: if_splits)
  then show ?thesis
    using assms by (subst scan_frames.simps) simp
qed

lemma parse_next_index:
  "parse_binary_sensor_data crc ts buffer index = Inr (data, next_index) \<Longrightarrow>
     next_index = index + 35"
  by (auto simp: parse_binary_sensor_data_def Let_def split: if_splits)

lemma scan_frames_acc:
  "scan_frames crc now buffer n index result = result @ scan_frames crc now buffer n index []"
proof (induction "n - index" arbitrary: index result rule: less_induct)
  case less
  show ?case
  proof (cases "index < n")
    case False
    then show ?thesis by (simp add: scan_frames_end)
  next
    case lt: True
    show ?thesis
    proof (cases "index + 1 < n \<and> buffer ! index = 0xAA \<and> buffer ! (index + 1) = 0x55")
      case False
      have "scan_frames crc now buffer n (index + 1) result =
              result @ scan_frames crc now buffer n (index + 1) []"
        using lt by (intro less) simp
      then show ?thesis
        using scan_frames_no_marker [OF lt False] by simp
    next
      case mk: True
      show ?thesis
      proof (cases "parse_binary_sensor_data crc (now index) buffer index")
        case (Inl e)
        have "scan_frames crc now buffer n (index + 1) result =
                result @ scan_frames crc now buffer n (index + 1) []"
          using lt by (intro less) simp
        then show ?thesis
          using scan_frames_skip [of index n crc now buffer e] lt Inl by simp
      next
        case (Inr p)
        obtain data next_index where p: "p = (data, next_index)" by (cases p)
        have nx: "next_index = index + 35"
          using Inr p by (auto dest: parse_next_index)
        have a: "scan_frames crc now buffer n index r =
                   scan_frames crc now buffer n next_index (r @ [data])" for r
          using scan_frames_take [of index n crc now buffer data next_index r] mk Inr p by simp
        have b: "scan_frames crc now buffer n next_index r =
                   r @ scan_frames crc now buffer n next_index []" for r
          using lt nx by (intro less) simp
        show ?thesis
          using a [of result] a [of "[]"] b [of "result @ [data]"] b [of "[data]"] by simp
      qed
    qed
  qed
qed

lemma scan_frames_sequence:
  assumes "buffer = pre @ concat (map (binary_frame crc) ds) @ post"
    and "n = length pre + 35 * length ds"
  shows "scan_frames crc now buffer n (length pre) result =
           result @ stamp_frames now (length pre) ds"
  using assms
proof (induction ds arbitrary: pre result)
  case Nil
  then show ?case by (simp add: scan_frames_end)
next
  case (Cons d ds)
  have b: "buffer = pre @ binary_frame crc d @ (concat (map (binary_frame crc) ds) @ post)"
    using Cons.prems by simp
  have p: "parse_binary_sensor_data crc (now (length pre)) buffer (length pre) =
             Inr (stamped (now (length pre)) d, length pre + 35)"
    unfolding b by (rule parse_binary_frame_at)
  have "length pre + 1 < n" using Cons.prems by simp
  then have "scan_frames crc now buffer n (length pre) result =
               scan_frames crc now buffer n (length pre + 35) (result @ [stamped (now (length pre)) d])"
    using scan_frames_take [of "length pre" n crc now buffer "stamped (now (length pre)) d"
        "length pre + 35" result] p by simp
  also have "\<dots> = (result @ [stamped (now (length pre)) d]) @
                     stamp_frames now (length (pre @ binary_frame crc d)) ds"
    using Cons.IH [of "pre @ binary_frame crc d" "result @ [stamped (now (length pre)) d]"]
      Cons.prems by simp
  finally show ?case by simp
qed

lemma fill_buffer_short:
  "length bytes \<le> 4096 \<Longrightarrow> fill_buffer bytes = bytes @ replicate (4096 - length bytes) 0"
  by (simp add: fill_buffer_def)

lemma read_frames:
  assumes "35 * length ds \<le> 4096"
  shows "read_binary_sensor_data crc now (ReadOk (concat (map (binary_frame crc) ds))) =
           Inr (stamp_frames now 0 ds)"
proof -
  let ?bytes = "concat (map (binary_frame crc) ds)"
  have len: "length ?bytes = 35 * length ds"
    by (induction ds) simp_all
  have "scan_frames crc now (fill_buffer ?bytes) (35 * length ds) 0 [] = stamp_frames now 0 ds"
    using scan_frames_sequence [of "fill_buffer ?bytes" "[]" crc ds
        "replicate (4096 - length ?bytes) 0" "35 * length ds" now "[]"] assms len
    by (simp add: fill_buffer_short)
  moreover have "ds = [] \<Longrightarrow> stamp_frames now 0 ds = []" by simp
  ultimately show ?thesis
    using assms len by (auto simp: read_binary_sensor_data_def Let_def min_def)
qed

lemma wire_stamp_frames [simp]: "map wire (stamp_frames now i ds) = ds"
  by (induction ds arbitrary: i) simp_all

lemma crc8_byte_unfold:
  "crc8_byte poly c b =
     crc8_shift poly (crc8_shift poly (crc8_shift poly (crc8_shift poly
       (crc8_shift poly (crc8_shift poly (crc8_shift poly (crc8_shift poly (c XOR b))))))))"
  by (simp add: crc8_byte_def eval_nat_numeral)

lemma crc8_Nil: "crc8 poly init xorout [] = init XOR xorout"
  by (simp add: crc8_def)

lemma crc8_Cons: "crc8 poly init xorout (b # bs) = crc8 poly (crc8_byte poly init b) xorout bs"
  by (simp add: crc8_def)


lemma upt_35: "[0..<35] = [0, 1, 2, 3, 4, 5, 6, 7, 8, 9, 10, 11, 12, 13, 14, 15, 16, 17, 18,
    19, 20, 21, 22, 23, 24, 25, 26, 27, 28, 29, 30, 31, 32, 33, 34]"
  by (simp add: upt_rec)

lemma bytes_35:
  assumes "length bs = 35"
  shows "bs = [bs ! 0, bs ! 1, bs ! 2, bs ! 3, bs ! 4, bs ! 5, bs ! 6, bs ! 7, bs ! 8, bs ! 9,
      bs ! 10, bs ! 11, bs ! 12, bs ! 13, bs ! 14, bs ! 15, bs ! 16, bs ! 17, bs ! 18, bs ! 19,
      bs ! 20, bs ! 21, bs ! 22, bs ! 23, bs ! 24, bs ! 25, bs ! 26, bs ! 27, bs ! 28, bs ! 29,
      bs ! 30, bs ! 31, bs ! 32, bs ! 33, bs ! 34]"
proof -
  have "bs = map ((!) bs) [0..<35]"
    using assms map_nth [of bs] by simp
  then show ?thesis
    unfolding upt_35 by simp
qed

lemma frame_is_encoding:
  assumes "length bs = 35" and "bs ! 0 = 0xAA" and "bs ! 1 = 0x55"
    and "crc (subslice bs 2 34) = bs ! 34"
  shows "bs = binary_frame crc
           \<lparr>timestamp = from_le_bytes (bs ! 2) (bs ! 3) (bs ! 4) (bs ! 5),
            temp = from_bits (from_le_bytes (bs ! 6) (bs ! 7) (bs ! 8) (bs ! 9)),
            gx = from_bits (from_le_bytes (bs ! 10) (bs ! 11) (bs ! 12) (bs ! 13)),
            gy = from_bits (from_le_bytes (bs ! 14) (bs ! 15) (bs ! 16) (bs ! 17)),
            gz = from_bits (from_le_bytes (bs ! 18) (bs ! 19) (bs ! 20) (bs ! 21)),
            ax = from_bits (from_le_bytes (bs ! 22) (bs ! 23) (bs ! 24) (bs ! 25)),
            ay = from_bits (from_le_bytes (bs ! 26) (bs ! 27) (bs ! 28) (bs ! 29)),
            az = from_bits (from_le_bytes (bs ! 30) (bs ! 31) (bs ! 32) (bs ! 33))\<rparr>"
proof -
  obtain b0 b1 b2 b3 b4 b5 b6 b7 b8 b9 b10 b11 b12 b13 b14 b15 b16 b17 b18 b19 b20 b21 b22 b23
      b24 b25 b26 b27 b28 b29 b30 b31 b32 b33 b34
    where bs: "bs = [b0, b1, b2, b3, b4, b5, b6, b7, b8, b9, b10, b11, b12, b13, b14, b15, b16,
      b17, b18, b19, b20, b21, b22, b23, b24, b25, b26, b27, b28, b29, b30, b31, b32, b33, b34]"
    by (rule that [OF bytes_35 [OF assms(1)]])
  show ?thesis
    using assms(2-4) unfolding bs
    by (simp add: binary_frame_def frame_payload_def to_le_bytes_from_le_bytes subslice_def)
qed


lemma replicate_unfold: "replicate (numeral k) x = x # replicate (pred_numeral k) x"
  by (simp add: numeral_eq_Suc)


lemma crc8_example_payload: "crc8 7 0 0 [0x2C, 1, 0, 0, 0, 0, 0x80, 0x3F, 0, 0, 0x80, 0x3F, 0,
    0, 0x80, 0x3F, 0, 0, 0x80, 0x3F, 0, 0, 0x80, 0x3F, 0, 0, 0x80, 0x3F, 0, 0, 0x80, 0x3F] = 0xA8"
  by (simp add: crc8_Nil crc8_Cons crc8_byte_unfold crc8_shift_def)

lemma ieee754_one: "ieee754_value (from_bits 0x3F800000) = Some 1"
  by (simp add: ieee754_value_def Let_def)

lemma ieee754_ten: "ieee754_value (from_bits 0x41200000) = Some 10"
  by (simp add: ieee754_value_def Let_def)

lemma example_frame:
  "binary_frame crc \<lparr>timestamp = 300, temp = from_bits 0x3F800000,
      gx = from_bits 0x3F800000, gy = from_bits 0x3F800000, gz = from_bits 0x3F800000,
      ax = from_bits 0x3F800000, ay = from_bits 0x3F800000,
      az = from_bits 0x3F800000\<rparr> = [0xAA, 0x55, 0x2C, 1, 0, 0, 0, 0, 0x80, 0x3F, 0, 0,
      0x80, 0x3F, 0, 0, 0x80, 0x3F, 0, 0, 0x80, 0x3F, 0, 0, 0x80, 0x3F, 0, 0, 0x80, 0x3F, 0, 0,
      0x80, 0x3F, crc [0x2C, 1, 0, 0, 0, 0, 0x80, 0x3F, 0, 0, 0x80, 0x3F, 0, 0, 0x80, 0x3F, 0,
      0, 0x80, 0x3F, 0, 0, 0x80, 0x3F, 0, 0, 0x80, 0x3F, 0, 0, 0x80, 0x3F]]"
proof -
  have "frame_payload \<lparr>timestamp = 300, temp = from_bits 0x3F800000,
      gx = from_bits 0x3F800000, gy = from_bits 0x3F800000, gz = from_bits 0x3F800000,
      ax = from_bits 0x3F800000, ay = from_bits 0x3F800000,
      az = from_bits 0x3F800000\<rparr> = [0x2C, 1, 0, 0, 0, 0, 0x80, 0x3F, 0, 0, 0x80, 0x3F,
      0, 0, 0x80, 0x3F, 0, 0, 0x80, 0x3F, 0, 0, 0x80, 0x3F, 0, 0, 0x80, 0x3F, 0, 0, 0x80, 0x3F]"
    by (simp add: frame_payload_def to_le_bytes_def)
  then show ?thesis
    by (simp add: binary_frame_def)
qed

lemma read_single_frame:
  "read_binary_sensor_data crc now (ReadOk (binary_frame crc d)) = Inr [stamped (now 0) d]"
  using read_frames [of "[d]" crc now] by simp

lemma scan_frames_through:
  assumes "buffer = pre @ concat (map (binary_frame crc) ds) @ post"
    and "length pre + 35 * length ds \<le> n"
  shows "scan_frames crc now buffer n (length pre) result =
           scan_frames crc now buffer n (length pre + 35 * length ds)
             (result @ stamp_frames now (length pre) ds)"
  using assms
proof (induction ds arbitrary: pre result)
  case Nil
  then show ?case by simp
next
  case (Cons d ds)
  have b: "buffer = pre @ binary_frame crc d @ (concat (map (binary_frame crc) ds) @ post)"
    using Cons.prems by simp
  have p: "parse_binary_sensor_data crc (now (length pre)) buffer (length pre) =
             Inr (stamped (now (length pre)) d, length pre + 35)"
    unfolding b by (rule parse_binary_frame_at)
  have "length pre + 1 < n" using Cons.prems by simp
  then have "scan_frames crc now buffer n (length pre) result =
               scan_frames crc now buffer n (length pre + 35) (result @ [stamped (now (length pre)) d])"
    using scan_frames_take [of "length pre" n crc now buffer "stamped (now (length pre)) d"
        "length pre + 35" result] p by simp
  also have "\<dots> = scan_frames crc now buffer n (length pre + 35 + 35 * length ds)
                     ((result @ [stamped (now (length pre)) d]) @
                      stamp_frames now (length pre + 35) ds)"
    using Cons.IH [of "pre @ binary_frame crc d" "result @ [stamped (now (length pre)) d]"]
      Cons.prems by simp
  finally show ?case by (simp add: add.assoc)
qed

lemma length_frames [simp]: "length (concat (map (binary_frame crc) ds)) = 35 * length ds"
  by (induction ds) simp_all

lemma scan_frames_resync:
  assumes "buffer = pre @ c # binary_frame crc d @ post" and "length pre + 36 \<le> n"
  shows "scan_frames crc now buffer n (length pre) result =
           scan_frames crc now buffer n (length pre + 36)
             (result @ [stamped (now (length pre + 1)) d])"
proof -
  have "buffer ! (length pre + 1) = 0xAA"
    using assms(1) by (simp add: nth_append binary_frame_def)
  then have "\<not> (length pre + 1 < n \<and> buffer ! length pre = 0xAA \<and> buffer ! (length pre + 1) = 0x55)"
    by simp
  moreover have "length pre < n" using assms(2) by simp
  ultimately have "scan_frames crc now buffer n (length pre) result =
                     scan_frames crc now buffer n (length pre + 1) result"
    by (rule scan_frames_no_marker [rotated])
  also have "\<dots> = scan_frames crc now buffer n (length (pre @ [c])) result"
    by simp
  also have "\<dots> = scan_frames crc now buffer n (length (pre @ [c]) + 35 * length [d])
        (result @ stamp_frames now (length (pre @ [c])) [d])"
    using assms by (intro scan_frames_through [where post = post]) simp_all
  also have "\<dots> = scan_frames crc now buffer n (length pre + 36)
             (result @ [stamped (now (length pre + 1)) d])"
    by (simp add: ac_simps)
  finally show ?thesis .
qed

lemma read_after_corrupt_byte:
  assumes "35 * length ps + 36 + 35 * length ds \<le> 4096"
  shows "read_binary_sensor_data crc now
           (ReadOk (concat (map (binary_frame crc) ps) @ c # concat (map (binary_frame crc) (d # ds)))) =
         Inr (stamp_frames now 0 ps @ stamp_frames now (35 * length ps + 1) (d # ds))"
proof -
  define P where "P = concat (map (binary_frame crc) ps)"
  define Q where "Q = concat (map (binary_frame crc) ds)"
  define bytes where "bytes = P @ c # binary_frame crc d @ Q"
  define n where "n = 35 * length ps + 36 + 35 * length ds"
  define pad where "pad = replicate (4096 - length bytes) (0 :: u8)"
  define B where "B = bytes @ pad"
  have lenP: "length P = 35 * length ps" and lenQ: "length Q = 35 * length ds"
    by (simp_all add: P_def Q_def)
  have len: "length bytes = n"
    by (simp add: bytes_def n_def lenP lenQ)
  have fb: "fill_buffer bytes = B"
    unfolding B_def pad_def using assms len by (intro fill_buffer_short) (simp add: n_def)
  have "scan_frames crc now B n (length ([] :: u8 list)) [] =
          scan_frames crc now B n (length ([] :: u8 list) + 35 * length ps)
            ([] @ stamp_frames now (length ([] :: u8 list)) ps)"
    by (intro scan_frames_through [where post = "c # binary_frame crc d @ Q @ pad"])
       (simp_all add: B_def bytes_def P_def n_def)
  then have 1: "scan_frames crc now B n 0 [] =
                  scan_frames crc now B n (length P) (stamp_frames now 0 ps)"
    by (simp add: lenP)
  have 2: "scan_frames crc now B n (length P) (stamp_frames now 0 ps) =
             scan_frames crc now B n (length P + 36)
               (stamp_frames now 0 ps @ [stamped (now (length P + 1)) d])"
    by (intro scan_frames_resync [where post = "Q @ pad" and c = c])
       (simp_all add: B_def bytes_def n_def lenP)
  have "scan_frames crc now B n (length (P @ c # binary_frame crc d))
               (stamp_frames now 0 ps @ [stamped (now (length P + 1)) d]) =
             scan_frames crc now B n
               (length (P @ c # binary_frame crc d) + 35 * length ds)
               ((stamp_frames now 0 ps @ [stamped (now (length P + 1)) d]) @
                stamp_frames now (length (P @ c # binary_frame crc d)) ds)"
    by (intro scan_frames_through [where post = pad])
       (simp_all add: B_def bytes_def Q_def n_def lenP)
  then have 3: "scan_frames crc now B n (length P + 36)
               (stamp_frames now 0 ps @ [stamped (now (length P + 1)) d]) =
             stamp_frames now 0 ps @ stamp_frames now (length P + 1) (d # ds)"
    by (simp add: scan_frames_end n_def lenP ac_simps)
  have "scan_frames crc now (fill_buffer bytes) n 0 [] =
          stamp_frames now 0 ps @ stamp_frames now (35 * length ps + 1) (d # ds)"
    unfolding fb using 1 2 3 by (simp add: lenP ac_simps)
  moreover have "min (length bytes) 4096 = n" "n \<noteq> 0"
    using assms len by (simp_all add: n_def)
  ultimately have "read_binary_sensor_data crc now (ReadOk bytes) =
      Inr (stamp_frames now 0 ps @ stamp_frames now (35 * length ps + 1) (d # ds))"
    by (simp add: read_binary_sensor_data_def Let_def)
  then show ?thesis
    by (simp add: bytes_def P_def Q_def)
qed

subsection \<open>A well-formed binary frame decodes to the values it encodes\<close>

text \<open>
  C2. A frame made of the marker AA 55, the little-endian timestamp, the seven
  little-endian floats in the order temp, gx, gy, gz, ax, ay, az and the CRC of those 32
  bytes parses to exactly these eight values (and index 35); read on its own it yields
  that one sample. Every 35-byte sequence with the marker and a matching CRC byte is such
  a frame. The frame AA 55, 2C 01 00 00, seven times 00 00 80 3F, CRC decodes to
  timestamp 300 and seven floats with bit pattern 3F800000, which is 1.0.
\<close>

theorem binary_frame_roundtrip:
  "parse_binary_sensor_data crc ts (binary_frame crc d) 0 = Inr (stamped ts d, 35) \<and>
   wire (stamped ts d) = d \<and>
   read_binary_sensor_data crc now (ReadOk (binary_frame crc d)) = Inr [stamped (now 0) d] \<and>
   (length bs = 35 \<and> bs ! 0 = 0xAA \<and> bs ! 1 = 0x55 \<and> crc (subslice bs 2 34) = bs ! 34 \<longrightarrow>
      (\<exists>e. bs = binary_frame crc e \<and>
           parse_binary_sensor_data crc ts bs 0 = Inr (stamped ts e, 35))) \<and>
   parse_binary_sensor_data crc ts [0xAA, 0x55, 0x2C, 1, 0, 0, 0, 0, 0x80, 0x3F, 0, 0, 0x80,
       0x3F, 0, 0, 0x80, 0x3F, 0, 0, 0x80, 0x3F, 0, 0, 0x80, 0x3F, 0, 0, 0x80, 0x3F, 0, 0,
       0x80, 0x3F, crc [0x2C, 1, 0, 0, 0, 0, 0x80, 0x3F, 0, 0, 0x80, 0x3F, 0, 0, 0x80, 0x3F, 0,
       0, 0x80, 0x3F, 0, 0, 0x80, 0x3F, 0, 0, 0x80, 0x3F, 0, 0, 0x80, 0x3F]] 0 =
     Inr (\<lparr>timestamp = 300, temp = from_bits 0x3F800000, gx = from_bits 0x3F800000,
         gy = from_bits 0x3F800000, gz = from_bits 0x3F800000,
           ax = from_bits 0x3F800000, ay = from_bits 0x3F800000, az = from_bits 0x3F800000,
               system_timestamp = ts\<rparr>, 35) \<and>
   ieee754_value (from_bits 0x3F800000) = Some 1"
proof -
  have a: "parse_binary_sensor_data crc ts (binary_frame crc d) 0 = Inr (stamped ts d, 35)" for d
    using parse_binary_frame_0 [of crc ts d "[]"] by simp
  have "\<exists>e. bs = binary_frame crc e \<and>
           parse_binary_sensor_data crc ts bs 0 = Inr (stamped ts e, 35)"
    if "length bs = 35" "bs ! 0 = 0xAA" "bs ! 1 = 0x55" "crc (subslice bs 2 34) = bs ! 34"
    using frame_is_encoding [of bs crc] that a by metis
  moreover have "parse_binary_sensor_data crc ts [0xAA, 0x55, 0x2C, 1, 0, 0, 0, 0, 0x80, 0x3F,
      0, 0, 0x80, 0x3F, 0, 0, 0x80, 0x3F, 0, 0, 0x80, 0x3F, 0, 0, 0x80, 0x3F, 0, 0, 0x80, 0x3F,
      0, 0, 0x80, 0x3F, crc [0x2C, 1, 0, 0, 0, 0, 0x80, 0x3F, 0, 0, 0x80, 0x3F, 0, 0, 0x80,
      0x3F, 0, 0, 0x80, 0x3F, 0, 0, 0x80, 0x3F, 0, 0, 0x80, 0x3F, 0, 0, 0x80, 0x3F]] 0 =
     Inr (\<lparr>timestamp = 300, temp = from_bits 0x3F800000, gx = from_bits 0x3F800000,
         gy = from_bits 0x3F800000, gz = from_bits 0x3F800000,
           ax = from_bits 0x3F800000, ay = from_bits 0x3F800000, az = from_bits 0x3F800000,
               system_timestamp = ts\<rparr>, 35)"
    using a [of "\<lparr>timestamp = 300, temp = from_bits 0x3F800000,
        gx = from_bits 0x3F800000, gy = from_bits 0x3F800000, gz = from_bits 0x3F800000,
        ax = from_bits 0x3F800000, ay = from_bits 0x3F800000,
        az = from_bits 0x3F800000\<rparr>"] by (simp add: example_frame stamped_eq)
  ultimately show ?thesis
    using a [of d] by (simp add: read_single_frame ieee754_one)
qed

theorem binary_frame_roundtrip_witness:
  "parse_binary_sensor_data (crc8 7 0 0) 5 [0xAA, 0x55, 0x2C, 1, 0, 0, 0, 0, 0x80, 0x3F, 0, 0,
      0x80, 0x3F, 0, 0, 0x80, 0x3F, 0, 0, 0x80, 0x3F, 0, 0, 0x80, 0x3F, 0, 0, 0x80, 0x3F, 0, 0,
      0x80, 0x3F, 0xA8] 0 =
     Inr (\<lparr>timestamp = 300, temp = from_bits 0x3F800000, gx = from_bits 0x3F800000,
         gy = from_bits 0x3F800000, gz = from_bits 0x3F800000,
           ax = from_bits 0x3F800000, ay = from_bits 0x3F800000, az = from_bits 0x3F800000,
               system_timestamp = 5\<rparr>, 35)"
  using binary_frame_roundtrip [of "crc8 7 0 0" 5 "\<lparr>timestamp = 300,
      temp = from_bits 0x3F800000, gx = from_bits 0x3F800000, gy = from_bits 0x3F800000,
      gz = from_bits 0x3F800000, ax = from_bits 0x3F800000, ay = from_bits 0x3F800000,
      az = from_bits 0x3F800000\<rparr>" "\<lambda>_. 5"
      "[0xAA, 0x55, 0x2C, 1, 0, 0, 0, 0, 0x80, 0x3F, 0, 0, 0x80, 0x3F, 0, 0, 0x80, 0x3F, 0, 0,
          0x80, 0x3F, 0, 0, 0x80, 0x3F, 0, 0, 0x80, 0x3F, 0, 0, 0x80, 0x3F, 0xA8]"]
  by (simp add: crc8_example_payload)

subsection \<open>Resynchronisation after a bad byte\<close>

lemma scan_frames_unfold:
  "scan_frames crc now buffer n index result =
    (if index < n then
       (if index + 1 < n \<and> buffer ! index = 0xAA \<and> buffer ! (index + 1) = 0x55 then
          (case parse_binary_sensor_data crc (now index) buffer index of
             Inr (data,
                 next_index) \<Rightarrow> scan_frames crc now buffer n next_index (result @ [data])
           | Inl _ \<Rightarrow> scan_frames crc now buffer n (index + 1) result)
        else scan_frames crc now buffer n (index + 1) result)
     else result)"
  by (rule scan_frames.simps)

lemma scan_frames_skip_range:
  assumes "p \<le> m" and "m \<le> n"
    and "\<forall>q. p \<le> q \<and> q < m \<longrightarrow> (\<exists>e. parse_binary_sensor_data crc (now q) buffer q = Inl e)"
  shows "scan_frames crc now buffer n p result = scan_frames crc now buffer n m result"
  using assms
proof (induction "m - p" arbitrary: p)
  case 0
  then show ?case by simp
next
  case (Suc k)
  then have lt: "p < m" by simp
  then obtain e where e: "parse_binary_sensor_data crc (now p) buffer p = Inl e"
    using Suc.prems(3) by auto
  have "scan_frames crc now buffer n p result = scan_frames crc now buffer n (p + 1) result"
    using scan_frames_skip [of p n crc now buffer e result] lt Suc.prems(2) e by simp
  moreover have "scan_frames crc now buffer n (p + 1) result =
                   scan_frames crc now buffer n m result"
    using Suc.hyps(2) lt Suc.prems by (intro Suc.hyps(1)) auto
  ultimately show ?case by simp
qed

lemma scan_frames_resync_from:
  assumes "buffer = pre @ c # binary_frame crc d @ post" and "length pre + 36 \<le> n"
    and "p \<le> length pre"
    and "\<forall>q. p \<le> q \<and> q < length pre \<longrightarrow>
           (\<exists>e. parse_binary_sensor_data crc (now q) buffer q = Inl e)"
  shows "scan_frames crc now buffer n p result =
           scan_frames crc now buffer n (length pre + 36)
             (result @ [stamped (now (length pre + 1)) d])"
proof -
  have "scan_frames crc now buffer n p result =
          scan_frames crc now buffer n (length pre) result"
    using assms by (intro scan_frames_skip_range) simp_all
  then show ?thesis
    using scan_frames_resync [OF assms(1,2), of now result] by simp
qed

lemma crc8_candidate_payload:
  "crc8 7 0 0 [0xAA, 0x55, 0x2C, 1, 0, 0, 0, 0, 0x80, 0x3F, 0, 0, 0x80, 0x3F, 0, 0, 0x80, 0x3F,
      0, 0, 0x80, 0x3F, 0, 0, 0x80, 0x3F, 0, 0, 0x80, 0x3F, 0, 0] = 0x3A"
  by (simp add: crc8_Nil crc8_Cons crc8_byte_unfold crc8_shift_def)

lemma crc8_unlucky_payload:
  "crc8 7 0 0 [0x2C, 1, 0, 0, 0, 0, 0x80, 0x3F, 0, 0, 0x80, 0x3F, 0, 0, 0x80, 0x3F, 0, 0, 0x80,
      0x3F, 0, 0, 0x80, 0x3F, 0, 0, 0x80, 0x3F, 0, 0, 0x3A, 0x3F] = 0x65"
  by (simp add: crc8_Nil crc8_Cons crc8_byte_unfold crc8_shift_def)

text \<open>
  C3, as the claim states it, fails for a frame anywhere in a buffer: the inserted byte
  can complete a marker with the byte before it, and the 8-bit checksum of that
  candidate can happen to match. After a byte AA the frame below is decoded; with the
  byte 55 inserted between that AA and the frame, the candidate AA 55 at index 0 passes
  the CRC, one bogus sample is returned, the scan jumps 35 bytes and the frame is lost.
\<close>

theorem marker_completing_byte_loses_frame:
  "read_binary_sensor_data (crc8 7 0 0) int (ReadOk [0xAA, 0xAA, 0x55, 0x2C, 1, 0, 0, 0, 0,
      0x80, 0x3F, 0, 0, 0x80, 0x3F, 0, 0, 0x80, 0x3F, 0, 0, 0x80, 0x3F, 0, 0, 0x80, 0x3F, 0, 0,
      0x80, 0x3F, 0, 0, 0x3A, 0x3F, 0x65]) =
     Inr [\<lparr>timestamp = 300, temp = from_bits 0x3F800000, gx = from_bits 0x3F800000,
         gy = from_bits 0x3F800000, gz = from_bits 0x3F800000,
         ax = from_bits 0x3F800000, ay = from_bits 0x3F800000, az = from_bits 0x3F3A0000,
             system_timestamp = 1\<rparr>] \<and>
   read_binary_sensor_data (crc8 7 0 0) int (ReadOk [0xAA, 0x55, 0xAA, 0x55, 0x2C, 1, 0, 0, 0,
       0, 0x80, 0x3F, 0, 0, 0x80, 0x3F, 0, 0, 0x80, 0x3F, 0, 0, 0x80, 0x3F, 0, 0, 0x80, 0x3F,
       0, 0, 0x80, 0x3F, 0, 0, 0x3A, 0x3F, 0x65]) =
     Inr [\<lparr>timestamp = 0x012C55AA, temp = from_bits 0, gx = from_bits 0x00003F80,
         gy = from_bits 0x00003F80, gz = from_bits 0x00003F80,
         ax = from_bits 0x00003F80, ay = from_bits 0x00003F80, az = from_bits 0x00003F80,
             system_timestamp = 0\<rparr>]"
  by (simp add: read_binary_sensor_data_def fill_buffer_def scan_frames_unfold
        parse_binary_sensor_data_def subslice_def crc8_candidate_payload crc8_unlucky_payload
        nth_append from_le_bytes_def)

text \<open>
  C3, amended. At a scan position without the marker the loop moves on by exactly one
  byte; at a marker whose candidate frame fails the CRC it also moves on by one byte (to
  the byte after the first marker byte), not by the 35 bytes of the candidate. Hence a
  frame preceded by one inserted byte \<open>c\<close> is still decoded whenever no candidate frame
  that starts before \<open>c\<close> is accepted: if the scan is at a position \<open>p\<close> at or before
  \<open>c\<close> and every parse from \<open>p\<close> up to \<open>c\<close> fails,
      it reaches the end of the frame
  with exactly that frame's sample added (no candidate starts at \<open>c\<close> itself, since the
  next byte is AA, not 55). In particular a read of whole frames, one inserted byte, and
  further whole frames yields every frame.
\<close>

theorem resync_after_bad_byte:
  "(index < n \<and> \<not> (index + 1 < n \<and> buffer ! index = 0xAA \<and> buffer ! (index + 1) = 0x55) \<longrightarrow>
      scan_frames crc now buffer n index result =
        scan_frames crc now buffer n (index + 1) result) \<and>
   (index + 1 < n \<and> buffer ! index = 0xAA \<and> buffer ! (index + 1) = 0x55 \<and>
    index + 35 \<le> length buffer \<and>
    crc (subslice buffer (index + 2) (index + 34)) \<noteq> buffer ! (index + 34) \<longrightarrow>
      scan_frames crc now buffer n index result =
        scan_frames crc now buffer n (index + 1) result) \<and>
   (buffer = pre @ c # binary_frame crc d @ post \<and> length pre + 36 \<le> n \<and> p \<le> length pre \<and>
    (\<forall>q. p \<le> q \<and> q < length pre \<longrightarrow>
         (\<exists>e. parse_binary_sensor_data crc (now q) buffer q = Inl e)) \<longrightarrow>
      scan_frames crc now buffer n p result =
        scan_frames crc now buffer n (length pre + 36)
          (result @ [stamped (now (length pre + 1)) d])) \<and>
   (35 * length ps + 36 + 35 * length ds \<le> 4096 \<longrightarrow>
      read_binary_sensor_data crc now
        (ReadOk (concat (map (binary_frame crc) ps) @ c #
                 concat (map (binary_frame crc) (d # ds)))) =
      Inr (stamp_frames now 0 ps @ stamp_frames now (35 * length ps + 1) (d # ds)))"
proof -
  have "scan_frames crc now buffer n index result =
          scan_frames crc now buffer n (index + 1) result"
    if "index + 1 < n" "buffer ! index = 0xAA" "buffer ! (index + 1) = 0x55"
      "index + 35 \<le> length buffer"
      "crc (subslice buffer (index + 2) (index + 34)) \<noteq> buffer ! (index + 34)"
  proof -
    have "parse_binary_sensor_data crc (now index) buffer index =
            Inl (ParseError ''CRC check failed'')"
      using that by (simp add: parse_binary_sensor_data_def Let_def)
    moreover have "index < n" using that by simp
    ultimately show ?thesis
      using scan_frames_skip [of index n crc now buffer "ParseError ''CRC check failed''" result]
      by simp
  qed
  then show ?thesis
    using scan_frames_no_marker [of index n buffer crc now result]
      scan_frames_resync_from [of buffer pre c crc d post n p now result]
      read_after_corrupt_byte [of ps ds crc now c d]
    by blast
qed

theorem resync_after_bad_byte_witness:
  "scan_frames (crc8 7 0 0) int (fill_buffer [0xAA, 0x55, 0xAA, 0x55, 0x2C, 1, 0, 0, 0, 0,
      0x80, 0x3F, 0, 0, 0x80, 0x3F, 0, 0, 0x80, 0x3F, 0, 0, 0x80, 0x3F, 0, 0, 0x80, 0x3F, 0, 0,
      0x80, 0x3F, 0, 0, 0x80, 0x3F, 0xA8]) 37 5 [] =
     scan_frames (crc8 7 0 0) int (fill_buffer [0xAA, 0x55, 0xAA, 0x55, 0x2C, 1, 0, 0, 0, 0,
         0x80, 0x3F, 0, 0, 0x80, 0x3F, 0, 0, 0x80, 0x3F, 0, 0, 0x80, 0x3F, 0, 0, 0x80, 0x3F, 0,
         0, 0x80, 0x3F, 0, 0, 0x80, 0x3F, 0xA8]) 37 6 [] \<and>
   scan_frames (crc8 7 0 0) int (fill_buffer [0xAA, 0x55, 0xAA, 0x55, 0x2C, 1, 0, 0, 0, 0,
       0x80, 0x3F, 0, 0, 0x80, 0x3F, 0, 0, 0x80, 0x3F, 0, 0, 0x80, 0x3F, 0, 0, 0x80, 0x3F, 0,
       0, 0x80, 0x3F, 0, 0, 0x80, 0x3F, 0xA8]) 37 0 [] =
     scan_frames (crc8 7 0 0) int (fill_buffer [0xAA, 0x55, 0xAA, 0x55, 0x2C, 1, 0, 0, 0, 0,
         0x80, 0x3F, 0, 0, 0x80, 0x3F, 0, 0, 0x80, 0x3F, 0, 0, 0x80, 0x3F, 0, 0, 0x80, 0x3F, 0,
         0, 0x80, 0x3F, 0, 0, 0x80, 0x3F, 0xA8]) 37 37
       [\<lparr>timestamp = 300, temp = from_bits 0x3F800000, gx = from_bits 0x3F800000,
           gy = from_bits 0x3F800000, gz = from_bits 0x3F800000,
         ax = from_bits 0x3F800000, ay = from_bits 0x3F800000, az = from_bits 0x3F800000,
             system_timestamp = 2\<rparr>] \<and>
   read_binary_sensor_data (crc8 7 0 0) int (ReadOk [0xAA, 0x55, 0xAA, 0x55, 0x2C, 1, 0, 0, 0,
       0, 0x80, 0x3F, 0, 0, 0x80, 0x3F, 0, 0, 0x80, 0x3F, 0, 0, 0x80, 0x3F, 0, 0, 0x80, 0x3F,
       0, 0, 0x80, 0x3F, 0, 0, 0x80, 0x3F, 0xA8]) =
     Inr [\<lparr>timestamp = 300, temp = from_bits 0x3F800000, gx = from_bits 0x3F800000,
         gy = from_bits 0x3F800000, gz = from_bits 0x3F800000,
         ax = from_bits 0x3F800000, ay = from_bits 0x3F800000, az = from_bits 0x3F800000,
             system_timestamp = 2\<rparr>] \<and>
   read_binary_sensor_data (crc8 7 0 0) int (ReadOk [0xFF, 0xAA, 0x55, 0x2C, 1, 0, 0, 0, 0,
       0x80, 0x3F, 0, 0, 0x80, 0x3F, 0, 0, 0x80, 0x3F, 0, 0, 0x80, 0x3F, 0, 0, 0x80, 0x3F, 0,
       0, 0x80, 0x3F, 0, 0, 0x80, 0x3F, 0xA8]) =
     Inr [\<lparr>timestamp = 300, temp = from_bits 0x3F800000, gx = from_bits 0x3F800000,
         gy = from_bits 0x3F800000, gz = from_bits 0x3F800000,
         ax = from_bits 0x3F800000, ay = from_bits 0x3F800000, az = from_bits 0x3F800000,
             system_timestamp = 1\<rparr>]"
proof -
  have a: "scan_frames (crc8 7 0 0) int (fill_buffer [0xAA, 0x55, 0xAA, 0x55, 0x2C, 1, 0, 0, 0,
      0, 0x80, 0x3F, 0, 0, 0x80, 0x3F, 0, 0, 0x80, 0x3F, 0, 0, 0x80, 0x3F, 0, 0, 0x80, 0x3F, 0,
      0, 0x80, 0x3F, 0, 0, 0x80, 0x3F, 0xA8]) 37 5 [] =
     scan_frames (crc8 7 0 0) int (fill_buffer [0xAA, 0x55, 0xAA, 0x55, 0x2C, 1, 0, 0, 0, 0,
         0x80, 0x3F, 0, 0, 0x80, 0x3F, 0, 0, 0x80, 0x3F, 0, 0, 0x80, 0x3F, 0, 0, 0x80, 0x3F, 0,
         0, 0x80, 0x3F, 0, 0, 0x80, 0x3F, 0xA8]) 37 6 [] \<and>
   scan_frames (crc8 7 0 0) int (fill_buffer [0xAA, 0x55, 0xAA, 0x55, 0x2C, 1, 0, 0, 0, 0,
       0x80, 0x3F, 0, 0, 0x80, 0x3F, 0, 0, 0x80, 0x3F, 0, 0, 0x80, 0x3F, 0, 0, 0x80, 0x3F, 0,
       0, 0x80, 0x3F, 0, 0, 0x80, 0x3F, 0xA8]) 37 0 [] =
     scan_frames (crc8 7 0 0) int (fill_buffer [0xAA, 0x55, 0xAA, 0x55, 0x2C, 1, 0, 0, 0, 0,
         0x80, 0x3F, 0, 0, 0x80, 0x3F, 0, 0, 0x80, 0x3F, 0, 0, 0x80, 0x3F, 0, 0, 0x80, 0x3F, 0,
         0, 0x80, 0x3F, 0, 0, 0x80, 0x3F, 0xA8]) 37 37
       [\<lparr>timestamp = 300, temp = from_bits 0x3F800000, gx = from_bits 0x3F800000,
           gy = from_bits 0x3F800000, gz = from_bits 0x3F800000,
         ax = from_bits 0x3F800000, ay = from_bits 0x3F800000, az = from_bits 0x3F800000,
             system_timestamp = 2\<rparr>]"
    using resync_after_bad_byte [where crc = "crc8 7 0 0" and now = int and index = 5 and n = 37
      and buffer = "fill_buffer [0xAA, 0x55, 0xAA, 0x55, 0x2C, 1, 0, 0, 0, 0, 0x80, 0x3F, 0, 0,
          0x80, 0x3F, 0, 0, 0x80, 0x3F, 0, 0, 0x80, 0x3F, 0, 0, 0x80, 0x3F, 0, 0, 0x80, 0x3F,
          0, 0, 0x80, 0x3F, 0xA8]" and result = "[]" and pre = "[0xAA]" and c = "0x55"
      and d = "\<lparr>timestamp = 300, temp = from_bits 0x3F800000, gx = from_bits 0x3F800000,
          gy = from_bits 0x3F800000, gz = from_bits 0x3F800000, ax = from_bits 0x3F800000,
          ay = from_bits 0x3F800000,
          az = from_bits 0x3F800000\<rparr>" and post = "replicate 4059 0" and p = 0 and ps = "[]" and ds = "[]"]
    by (simp add: fill_buffer_def example_frame crc8_example_payload subslice_def stamped_eq
          parse_binary_sensor_data_def crc8_candidate_payload nth_append)
  have b: "read_binary_sensor_data (crc8 7 0 0) int (ReadOk [0xFF, 0xAA, 0x55, 0x2C, 1, 0, 0,
      0, 0, 0x80, 0x3F, 0, 0, 0x80, 0x3F, 0, 0, 0x80, 0x3F, 0, 0, 0x80, 0x3F, 0, 0, 0x80, 0x3F,
      0, 0, 0x80, 0x3F, 0, 0, 0x80, 0x3F, 0xA8]) =
     Inr [\<lparr>timestamp = 300, temp = from_bits 0x3F800000, gx = from_bits 0x3F800000,
         gy = from_bits 0x3F800000, gz = from_bits 0x3F800000,
         ax = from_bits 0x3F800000, ay = from_bits 0x3F800000, az = from_bits 0x3F800000,
             system_timestamp = 1\<rparr>]"
    using resync_after_bad_byte [where crc = "crc8 7 0 0" and now = int and index = 0 and n = 35
      and buffer = "[0xAA, 0x55, 0x2C, 1, 0, 0, 0, 0, 0x80, 0x3F, 0, 0, 0x80, 0x3F, 0, 0, 0x80,
          0x3F, 0, 0, 0x80, 0x3F, 0, 0, 0x80, 0x3F, 0, 0, 0x80, 0x3F, 0, 0, 0x80, 0x3F,
          0]" and result = "[]" and pre = "[]" and c = "0xFF"
      and d = "\<lparr>timestamp = 300, temp = from_bits 0x3F800000, gx = from_bits 0x3F800000,
          gy = from_bits 0x3F800000, gz = from_bits 0x3F800000, ax = from_bits 0x3F800000,
          ay = from_bits 0x3F800000,
          az = from_bits 0x3F800000\<rparr>" and post = "[]" and p = 0 and ps = "[]" and ds = "[]"]
    by (simp add: example_frame crc8_example_payload subslice_def stamped_eq)
  have len: "length [0xAA, 0x55, 0xAA, 0x55, 0x2C, 1, 0, 0, 0, 0, 0x80, 0x3F, 0, 0, 0x80, 0x3F,
      0, 0, 0x80, 0x3F, 0, 0, 0x80, 0x3F, 0, 0, 0x80, 0x3F, 0, 0, 0x80, 0x3F, 0, 0, 0x80, 0x3F,
      0xA8] = 37"
    by simp
  have "read_binary_sensor_data (crc8 7 0 0) int (ReadOk [0xAA, 0x55, 0xAA, 0x55, 0x2C, 1, 0,
      0, 0, 0, 0x80, 0x3F, 0, 0, 0x80, 0x3F, 0, 0, 0x80, 0x3F, 0, 0, 0x80, 0x3F, 0, 0, 0x80,
      0x3F, 0, 0, 0x80, 0x3F, 0, 0, 0x80, 0x3F, 0xA8]) =
          Inr (scan_frames (crc8 7 0 0) int (fill_buffer [0xAA, 0x55, 0xAA, 0x55, 0x2C, 1, 0,
              0, 0, 0, 0x80, 0x3F, 0, 0, 0x80, 0x3F, 0, 0, 0x80, 0x3F, 0, 0, 0x80, 0x3F, 0, 0,
              0x80, 0x3F, 0, 0, 0x80, 0x3F, 0, 0, 0x80, 0x3F, 0xA8]) 37 0 [])"
    unfolding read_binary_sensor_data_def port_read.case Let_def len by simp
  then show ?thesis
    using a b by (simp add: scan_frames_end)
qed

lemma crc8_cut_payload:
  "crc8 7 0 0 (0x2C # 1 # 0 # 0 # 0 # 0 # 0x80 # 0x3F # replicate 24 0) = 0x80"
  by (simp add: replicate_unfold crc8_Nil crc8_Cons crc8_byte_unfold crc8_shift_def)

lemma feed_frame_groups:
  assumes "35 * length (concat groups) \<le> 4096"
  shows "map wire (feed_chunks crc now j (map (\<lambda>g. concat (map (binary_frame crc) g)) groups)) =
           concat groups"
  using assms
proof (induction groups arbitrary: j)
  case Nil
  then show ?case by simp
next
  case (Cons g groups)
  have "35 * length g \<le> 4096" "35 * length (concat groups) \<le> 4096"
    using Cons.prems by simp_all
  then show ?case
    using Cons.IH [of "Suc j"] read_frames [of g crc "now j"] by simp
qed

subsection \<open>Framing errors stay inside the decoder\<close>

text \<open>
  C4, as the claim states it, fails on the counters: the function has no
  bytes-discarded or checksum-failure counter, and nothing of a framing error is left
  for the caller to observe. A read of one stray byte followed by a frame whose checksum
  fails returns \<^verbatim>\<open>Ok\<close> with no samples,
      the very value a timed-out read returns.
\<close>

theorem bad_frame_leaves_no_trace:
  "read_binary_sensor_data (crc8 7 0 0) int (ReadOk [0, 0xAA, 0x55, 0x2C, 1, 0, 0, 0, 0, 0x80,
      0x3F, 0, 0, 0x80, 0x3F, 0, 0, 0x80, 0x3F, 0, 0, 0x80, 0x3F, 0, 0, 0x80, 0x3F, 0, 0, 0x80,
      0x3F, 0, 0, 0x80, 0x3F, 0]) = Inr [] \<and>
   read_binary_sensor_data (crc8 7 0 0) int ReadTimedOut = Inr []"
  by (simp add: read_binary_sensor_data_def fill_buffer_def scan_frames_unfold
        parse_binary_sensor_data_def subslice_def crc8_example_payload nth_append)

text \<open>
  C4, amended. For every byte sequence the call returns \<^verbatim>\<open>Ok\<close>; the only error it can
  return is the I/O error of \<^verbatim>\<open>port.read\<close> itself. Wherever the parser reports an error
  (incomplete frame, bad header, failed CRC) the loop goes on at the next byte with the
  samples collected so far unchanged.
\<close>

theorem framing_errors_absorbed:
  "(\<exists>samples. read_binary_sensor_data crc now (ReadOk bytes) = Inr samples) \<and>
   (read_binary_sensor_data crc now port = Inl e \<longrightarrow>
      (\<exists>io. port = ReadFailed io \<and> e = Io io)) \<and>
   (index < n \<and> parse_binary_sensor_data crc (now index) buffer index = Inl err \<longrightarrow>
      scan_frames crc now buffer n index result =
        scan_frames crc now buffer n (index + 1) result)"
proof -
  have "\<exists>samples. read_binary_sensor_data crc now (ReadOk bytes) = Inr samples"
    by (simp add: read_binary_sensor_data_def Let_def)
  moreover have "read_binary_sensor_data crc now port = Inl e \<longrightarrow>
      (\<exists>io. port = ReadFailed io \<and> e = Io io)"
    by (cases port) (auto simp: read_binary_sensor_data_def Let_def)
  ultimately show ?thesis
    using scan_frames_skip [of index n crc now buffer err result] by blast
qed

theorem framing_errors_absorbed_witness:
  "(\<exists>samples. read_binary_sensor_data (crc8 7 0 0) int (ReadOk [0, 0, 0xAA, 0x55, 0x2C,
      1, 0, 0, 0, 0, 0x80, 0x3F, 0, 0, 0x80, 0x3F, 0, 0, 0x80, 0x3F, 0, 0, 0x80, 0x3F, 0, 0,
      0x80, 0x3F, 0, 0, 0x80, 0x3F, 0, 0, 0x80, 0x3F, 0]) = Inr samples) \<and>
   read_binary_sensor_data (crc8 7 0 0) int (ReadFailed Disconnected) = Inl (Io Disconnected) \<and>
   scan_frames (crc8 7 0 0) int (fill_buffer [0, 0, 0xAA, 0x55, 0x2C, 1, 0, 0, 0, 0, 0x80,
       0x3F, 0, 0, 0x80, 0x3F, 0, 0, 0x80, 0x3F, 0, 0, 0x80, 0x3F, 0, 0, 0x80, 0x3F, 0, 0,
       0x80, 0x3F, 0, 0, 0x80, 0x3F, 0]) 38 2 [] =
     scan_frames (crc8 7 0 0) int (fill_buffer [0, 0, 0xAA, 0x55, 0x2C, 1, 0, 0, 0, 0, 0x80,
         0x3F, 0, 0, 0x80, 0x3F, 0, 0, 0x80, 0x3F, 0, 0, 0x80, 0x3F, 0, 0, 0x80, 0x3F, 0, 0,
         0x80, 0x3F, 0, 0, 0x80, 0x3F, 0]) 38 3 []"
  using framing_errors_absorbed [where crc = "crc8 7 0 0" and now = int and bytes = "[0, 0,
      0xAA, 0x55, 0x2C, 1, 0, 0, 0, 0, 0x80, 0x3F, 0, 0, 0x80, 0x3F, 0, 0, 0x80, 0x3F, 0, 0,
      0x80, 0x3F, 0, 0, 0x80, 0x3F, 0, 0, 0x80, 0x3F, 0, 0, 0x80, 0x3F, 0]"
      and port = "ReadFailed Disconnected" and e = "Io Disconnected" and index = 2 and n = 38
      and buffer = "fill_buffer [0, 0, 0xAA, 0x55, 0x2C, 1, 0, 0, 0, 0, 0x80, 0x3F, 0, 0, 0x80, 0x3F, 0, 0, 0x80, 0x3F, 0, 0, 0x80, 0x3F, 0, 0, 0x80, 0x3F, 0, 0, 0x80, 0x3F, 0, 0, 0x80, 0x3F, 0]" and err = "ParseError ''CRC check failed''"
      and result = "[]"]
  by (simp add: read_binary_sensor_data_def fill_buffer_def parse_binary_sensor_data_def
        subslice_def crc8_example_payload nth_append)

subsection \<open>Chunked input\<close>

text \<open>
  C1, as the claim states it, fails: a call keeps nothing for the next call. A valid
  frame read in one call is decoded; the same 35 bytes read as 10 bytes and then 25
  bytes yield no sample at all.
\<close>

theorem cut_frame_is_lost:
  "read_binary_sensor_data (crc8 7 0 0) int (ReadOk [0xAA, 0x55, 0x2C, 1, 0, 0, 0, 0, 0x80,
      0x3F, 0, 0, 0x80, 0x3F, 0, 0, 0x80, 0x3F, 0, 0, 0x80, 0x3F, 0, 0, 0x80, 0x3F, 0, 0, 0x80,
      0x3F, 0, 0, 0x80, 0x3F, 0xA8]) =
     Inr [\<lparr>timestamp = 300, temp = from_bits 0x3F800000, gx = from_bits 0x3F800000,
         gy = from_bits 0x3F800000, gz = from_bits 0x3F800000,
         ax = from_bits 0x3F800000, ay = from_bits 0x3F800000, az = from_bits 0x3F800000,
             system_timestamp = 0\<rparr>] \<and>
   feed_chunks (crc8 7 0 0) (\<lambda>j. int) 0 [[0xAA, 0x55, 0x2C, 1, 0, 0, 0, 0, 0x80, 0x3F],
       [0, 0, 0x80, 0x3F, 0, 0, 0x80, 0x3F, 0, 0, 0x80, 0x3F, 0, 0, 0x80, 0x3F, 0, 0, 0x80,
       0x3F, 0, 0, 0x80, 0x3F, 0xA8]] = []"
proof -
  have "read_binary_sensor_data (crc8 7 0 0) int (ReadOk [0xAA, 0x55, 0x2C, 1, 0, 0, 0, 0,
      0x80, 0x3F]) = Inr []"
    by (simp add: read_binary_sensor_data_def fill_buffer_def scan_frames_unfold
        parse_binary_sensor_data_def subslice_def crc8_cut_payload nth_append)
  moreover have "read_binary_sensor_data (crc8 7 0 0) int (ReadOk [0, 0, 0x80, 0x3F, 0, 0,
      0x80, 0x3F, 0, 0, 0x80, 0x3F, 0, 0, 0x80, 0x3F, 0, 0, 0x80, 0x3F, 0, 0, 0x80, 0x3F,
      0xA8]) = Inr []"
    by (simp add: read_binary_sensor_data_def fill_buffer_def scan_frames_unfold nth_append)
  moreover have "read_binary_sensor_data (crc8 7 0 0) int (ReadOk [0xAA, 0x55, 0x2C, 1, 0, 0,
      0, 0, 0x80, 0x3F, 0, 0, 0x80, 0x3F, 0, 0, 0x80, 0x3F, 0, 0, 0x80, 0x3F, 0, 0, 0x80, 0x3F,
      0, 0, 0x80, 0x3F, 0, 0, 0x80, 0x3F, 0xA8]) =
     Inr [\<lparr>timestamp = 300, temp = from_bits 0x3F800000, gx = from_bits 0x3F800000,
         gy = from_bits 0x3F800000, gz = from_bits 0x3F800000,
         ax = from_bits 0x3F800000, ay = from_bits 0x3F800000, az = from_bits 0x3F800000,
             system_timestamp = 0\<rparr>]"
    using read_single_frame [of "crc8 7 0 0" int "\<lparr>timestamp = 300,
        temp = from_bits 0x3F800000, gx = from_bits 0x3F800000, gy = from_bits 0x3F800000,
        gz = from_bits 0x3F800000, ax = from_bits 0x3F800000, ay = from_bits 0x3F800000,
        az = from_bits 0x3F800000\<rparr>"]
    by (simp add: example_frame crc8_example_payload stamped_eq)
  ultimately show ?thesis by simp
qed

text \<open>
  C1, amended. Each call decodes its own chunk only. For a stream of valid frames that
  fits one read (at most 4096 bytes), cut into chunks that each consist of whole frames,
  feeding the chunks one by one yields the same samples, in the same order, as feeding
  the stream whole: the encoded values of all frames.
\<close>

theorem frame_aligned_chunking:
  assumes "35 * length (concat groups) \<le> 4096"
  shows "map wire (feed_chunks crc now j (map (\<lambda>g. concat (map (binary_frame crc) g)) groups)) =
           concat groups \<and>
         (\<exists>samples.
            read_binary_sensor_data crc whole_now
              (ReadOk (concat (map (\<lambda>g. concat (map (binary_frame crc) g)) groups))) =
              Inr samples \<and>
            map wire samples = concat groups)"
proof -
  have "concat (map (\<lambda>g. concat (map (binary_frame crc) g)) groups) =
          concat (map (binary_frame crc) (concat groups))"
    by (induction groups) simp_all
  then have "read_binary_sensor_data crc whole_now
              (ReadOk (concat (map (\<lambda>g. concat (map (binary_frame crc) g)) groups))) =
             Inr (stamp_frames whole_now 0 (concat groups))"
    using read_frames [of "concat groups" crc whole_now] assms by simp
  then show ?thesis
    using feed_frame_groups [OF assms, of crc now j] by simp
qed

theorem frame_aligned_chunking_witness:
  "map wire (feed_chunks (crc8 7 0 0) (\<lambda>j. int) 0
       [[0xAA, 0x55, 0x2C, 1, 0, 0, 0, 0, 0x80, 0x3F, 0, 0, 0x80, 0x3F, 0, 0, 0x80, 0x3F, 0, 0,
           0x80, 0x3F, 0, 0, 0x80, 0x3F, 0, 0, 0x80, 0x3F, 0, 0, 0x80, 0x3F, 0xA8], [0xAA,
           0x55, 0x2C, 1, 0, 0, 0, 0, 0x80, 0x3F, 0, 0, 0x80, 0x3F, 0, 0, 0x80, 0x3F, 0, 0,
           0x80, 0x3F, 0, 0, 0x80, 0x3F, 0, 0, 0x80, 0x3F, 0, 0, 0x80, 0x3F, 0xA8] @ [0xAA,
           0x55, 0x2C, 1, 0, 0, 0, 0, 0x80, 0x3F, 0, 0, 0x80, 0x3F, 0, 0, 0x80, 0x3F, 0, 0,
           0x80, 0x3F, 0, 0, 0x80, 0x3F, 0, 0, 0x80, 0x3F, 0, 0, 0x80, 0x3F, 0xA8]]) =
     [\<lparr>timestamp = 300, temp = from_bits 0x3F800000, gx = from_bits 0x3F800000,
         gy = from_bits 0x3F800000, gz = from_bits 0x3F800000, ax = from_bits 0x3F800000,
         ay = from_bits 0x3F800000, az = from_bits 0x3F800000\<rparr>, \<lparr>timestamp = 300,
         temp = from_bits 0x3F800000, gx = from_bits 0x3F800000, gy = from_bits 0x3F800000,
         gz = from_bits 0x3F800000, ax = from_bits 0x3F800000, ay = from_bits 0x3F800000,
         az = from_bits 0x3F800000\<rparr>, \<lparr>timestamp = 300,
         temp = from_bits 0x3F800000, gx = from_bits 0x3F800000, gy = from_bits 0x3F800000,
         gz = from_bits 0x3F800000, ax = from_bits 0x3F800000, ay = from_bits 0x3F800000,
         az = from_bits 0x3F800000\<rparr>] \<and>
   (\<exists>samples.
      read_binary_sensor_data (crc8 7 0 0) int (ReadOk ([0xAA, 0x55, 0x2C, 1, 0, 0, 0, 0, 0x80,
          0x3F, 0, 0, 0x80, 0x3F, 0, 0, 0x80, 0x3F, 0, 0, 0x80, 0x3F, 0, 0, 0x80, 0x3F, 0, 0,
          0x80, 0x3F, 0, 0, 0x80, 0x3F, 0xA8] @ [0xAA, 0x55, 0x2C, 1, 0, 0, 0, 0, 0x80, 0x3F,
          0, 0, 0x80, 0x3F, 0, 0, 0x80, 0x3F, 0, 0, 0x80, 0x3F, 0, 0, 0x80, 0x3F, 0, 0, 0x80,
          0x3F, 0, 0, 0x80, 0x3F, 0xA8] @ [0xAA, 0x55, 0x2C, 1, 0, 0, 0, 0, 0x80, 0x3F, 0, 0,
          0x80, 0x3F, 0, 0, 0x80, 0x3F, 0, 0, 0x80, 0x3F, 0, 0, 0x80, 0x3F, 0, 0, 0x80, 0x3F,
          0, 0, 0x80, 0x3F, 0xA8])) = Inr samples \<and>
      map wire samples = [\<lparr>timestamp = 300, temp = from_bits 0x3F800000,
          gx = from_bits 0x3F800000, gy = from_bits 0x3F800000, gz = from_bits 0x3F800000,
          ax = from_bits 0x3F800000, ay = from_bits 0x3F800000,
          az = from_bits 0x3F800000\<rparr>, \<lparr>timestamp = 300,
          temp = from_bits 0x3F800000, gx = from_bits 0x3F800000, gy = from_bits 0x3F800000,
          gz = from_bits 0x3F800000, ax = from_bits 0x3F800000, ay = from_bits 0x3F800000,
          az = from_bits 0x3F800000\<rparr>, \<lparr>timestamp = 300,
          temp = from_bits 0x3F800000, gx = from_bits 0x3F800000, gy = from_bits 0x3F800000,
          gz = from_bits 0x3F800000, ax = from_bits 0x3F800000, ay = from_bits 0x3F800000,
          az = from_bits 0x3F800000\<rparr>])"
  using frame_aligned_chunking [where groups = "[[\<lparr>timestamp = 300,
      temp = from_bits 0x3F800000, gx = from_bits 0x3F800000, gy = from_bits 0x3F800000,
      gz = from_bits 0x3F800000, ax = from_bits 0x3F800000, ay = from_bits 0x3F800000,
      az = from_bits 0x3F800000\<rparr>], [\<lparr>timestamp = 300,
      temp = from_bits 0x3F800000, gx = from_bits 0x3F800000, gy = from_bits 0x3F800000,
      gz = from_bits 0x3F800000, ax = from_bits 0x3F800000, ay = from_bits 0x3F800000,
      az = from_bits 0x3F800000\<rparr>, \<lparr>timestamp = 300, temp = from_bits 0x3F800000,
      gx = from_bits 0x3F800000, gy = from_bits 0x3F800000, gz = from_bits 0x3F800000,
      ax = from_bits 0x3F800000, ay = from_bits 0x3F800000,
      az = from_bits 0x3F800000\<rparr>]]" and crc = "crc8 7 0 0"
      and now = "\<lambda>j. int" and j = 0 and whole_now = int]
  by (simp add: example_frame crc8_example_payload)

subsection \<open>CRC-8 and single-bit errors\<close>

lemma xor_cancel_right: "(a XOR x = b XOR x) \<longleftrightarrow> a = (b :: u8)"
  by (auto simp: bit_eq_iff bit_xor_iff)

lemma bit_double_Suc: "n < 7 \<Longrightarrow> bit ((a :: u8) * 2) (Suc n) = bit a n"
  using bit_push_bit_iff [of 1 a "Suc n"] by (simp add: push_bit_eq_mult)

lemma crc8_shift_inj:
  assumes "bit poly 0" and "crc8_shift poly a = crc8_shift poly b"
  shows "a = b"
proof -
  have b0: "bit (crc8_shift poly x) 0 = bit x 7" for x
    using assms(1) by (simp add: crc8_shift_def bit_0 even_xor_iff)
  have 7: "bit a 7 = bit b 7"
    using assms(2) b0 [of a] b0 [of b] by simp
  have "push_bit 1 a = push_bit 1 b"
    using assms(2) 7 by (auto simp: crc8_shift_def xor_cancel_right split: if_splits)
  then have "bit (a * 2) (Suc n) = bit (b * 2) (Suc n)" for n
    by (simp add: push_bit_eq_mult)
  then have low: "n < 7 \<Longrightarrow> bit a n = bit b n" for n
    using bit_double_Suc [of n a] bit_double_Suc [of n b] by simp
  show ?thesis
  proof (rule bit_word_eqI)
    fix n assume "n < LENGTH(8)"
    then have "n < 7 \<or> n = 7" by auto
    then show "bit a n = bit b n" using low 7 by auto
  qed
qed

lemma crc8_byte_inj_reg:
  assumes "bit poly 0" and "crc8_byte poly c b = crc8_byte poly c' b"
  shows "c = c'"
proof -
  have "inj (crc8_shift poly)"
    using crc8_shift_inj [OF assms(1)] by (auto intro: injI)
  then have "inj (crc8_shift poly ^^ 8)" by (rule inj_fn)
  then have "c XOR b = c' XOR b"
    using assms(2) by (auto simp: crc8_byte_def dest: injD)
  then show ?thesis by (simp add: xor_cancel_right)
qed

lemma crc8_byte_inj_data:
  assumes "bit poly 0" and "crc8_byte poly c b = crc8_byte poly c b'"
  shows "b = b'"
  using crc8_byte_inj_reg [OF assms(1), of b c b'] assms(2)
  by (simp add: crc8_byte_def xor.commute)

lemma crc8_fold_inj:
  assumes "bit poly 0"
    and "fold (\<lambda>b c. crc8_byte poly c b) data c = fold (\<lambda>b c. crc8_byte poly c b) data c'"
  shows "c = c'"
  using assms(2)
proof (induction data arbitrary: c c')
  case Nil
  then show ?case by simp
next
  case (Cons b data)
  then have "crc8_byte poly c b = crc8_byte poly c' b" by simp
  then show ?case by (rule crc8_byte_inj_reg [OF assms(1)])
qed

lemma crc8_fold_changed_byte:
  assumes "bit poly 0" and "i < length data" and "m \<noteq> 0"
  shows "fold (\<lambda>b c. crc8_byte poly c b) (data[i := data ! i XOR m]) c \<noteq>
         fold (\<lambda>b c. crc8_byte poly c b) data c"
  using assms(2)
proof (induction data arbitrary: i c)
  case Nil
  then show ?case by simp
next
  case (Cons b data)
  show ?case
  proof (cases i)
    case 0
    have "b XOR m \<noteq> b" using assms(3)
      by (metis xor.right_neutral xor.left_commute xor_self_eq)
    then have "crc8_byte poly c (b XOR m) \<noteq> crc8_byte poly c b"
      using crc8_byte_inj_data [OF assms(1)] by blast
    then show ?thesis
      using 0 crc8_fold_inj [OF assms(1)] by auto
  next
    case (Suc j)
    then show ?thesis using Cons by simp
  qed
qed

lemma single_bit_nonzero: "j < 8 \<Longrightarrow> push_bit j (1 :: u8) \<noteq> 0"
proof
  assume "j < 8" "push_bit j (1 :: u8) = 0"
  then have "bit (push_bit j (1 :: u8)) j = bit (0 :: u8) j" by simp
  then show False using \<open>j < 8\<close> by (simp add: bit_simps)
qed

lemma crc8_flip_bit:
  assumes "bit poly 0" and "k < 8 * length payload"
  shows "crc8 poly init xorout (flip_payload_bit k payload) \<noteq> crc8 poly init xorout payload"
proof -
  have "k div 8 < length payload" using assms(2) by auto
  moreover have "push_bit (k mod 8) (1 :: u8) \<noteq> 0" by (simp add: single_bit_nonzero)
  ultimately have "fold (\<lambda>b c. crc8_byte poly c b) (flip_payload_bit k payload) init \<noteq>
         fold (\<lambda>b c. crc8_byte poly c b) payload init"
    unfolding flip_payload_bit_def by (rule crc8_fold_changed_byte [OF assms(1)])
  then show ?thesis by (simp add: crc8_def xor_cancel_right)
qed


lemma length_flip_payload_bit [simp]: "length (flip_payload_bit k bytes) = length bytes"
  by (simp add: flip_payload_bit_def)

lemma parse_crc_mismatch:
  assumes "length p = 32" and "crc p \<noteq> c"
  shows "parse_binary_sensor_data crc ts ([0xAA, 0x55] @ p @ [c] @ post) 0 =
           Inl (ParseError ''CRC check failed'')"
  using assms unfolding parse_binary_sensor_data_def Let_def
  by (simp add: subslice_def nth_append)

lemma parse_crc_match:
  assumes "length p = 32"
  shows "\<exists>sample. parse_binary_sensor_data crc ts ([0xAA, 0x55] @ p @ [crc p] @ post) 0 =
           Inr (sample, 35)"
  using assms unfolding parse_binary_sensor_data_def Let_def
  by (simp add: subslice_def nth_append)

text \<open>
  C7. For the bitwise CRC-8 with any generator polynomial that has the constant term 1
  (as every CRC generator has), any initial value and any final XOR: flipping any one of
  the 256 bits of a 32-byte payload changes the CRC, so the frame made of the marker, the
  corrupted payload and the original CRC byte is rejected by the parser with
  \<^verbatim>\<open>CRC check failed\<close>, while the uncorrupted frame is accepted.
\<close>

theorem crc8_detects_single_bit_flip:
  assumes "bit poly 0" and "length payload = 32" and "k < 256"
  shows "crc8 poly init xorout (flip_payload_bit k payload) \<noteq> crc8 poly init xorout payload \<and>
         parse_binary_sensor_data (crc8 poly init xorout) ts
           ([0xAA, 0x55] @ flip_payload_bit k payload @ [crc8 poly init xorout payload] @ post) 0 =
           Inl (ParseError ''CRC check failed'') \<and>
         (\<exists>sample. parse_binary_sensor_data (crc8 poly init xorout) ts
           ([0xAA, 0x55] @ payload @ [crc8 poly init xorout payload] @ post) 0 =
           Inr (sample, 35))"
proof -
  have ne: "crc8 poly init xorout (flip_payload_bit k payload) \<noteq> crc8 poly init xorout payload"
    using assms by (intro crc8_flip_bit) simp_all
  have len: "length (flip_payload_bit k payload) = 32"
    using assms(2) by simp
  show ?thesis
    using ne len assms(2)
      parse_crc_mismatch [of "flip_payload_bit k payload" "crc8 poly init xorout"
        "crc8 poly init xorout payload" ts post]
      parse_crc_match [of payload "crc8 poly init xorout" ts post]
    by blast
qed

theorem crc8_detects_single_bit_flip_witness:
  "crc8 7 0 0 [0x2C, 0x21, 0, 0, 0, 0, 0x80, 0x3F, 0, 0, 0x80, 0x3F, 0, 0, 0x80, 0x3F, 0, 0,
      0x80, 0x3F, 0, 0, 0x80, 0x3F, 0, 0, 0x80, 0x3F, 0, 0, 0x80,
      0x3F] \<noteq> crc8 7 0 0 [0x2C, 1, 0, 0, 0, 0, 0x80, 0x3F, 0, 0, 0x80, 0x3F, 0, 0, 0x80,
      0x3F, 0, 0, 0x80, 0x3F, 0, 0, 0x80, 0x3F, 0, 0, 0x80, 0x3F, 0, 0, 0x80, 0x3F] \<and>
   parse_binary_sensor_data (crc8 7 0 0) 5 [0xAA, 0x55, 0x2C, 0x21, 0, 0, 0, 0, 0x80, 0x3F, 0,
       0, 0x80, 0x3F, 0, 0, 0x80, 0x3F, 0, 0, 0x80, 0x3F, 0, 0, 0x80, 0x3F, 0, 0, 0x80, 0x3F,
       0, 0, 0x80, 0x3F, 0xA8] 0 =
     Inl (ParseError ''CRC check failed'')"
  using crc8_detects_single_bit_flip [where poly = 7 and init = 0 and xorout = 0
      and payload = "[0x2C, 1, 0, 0, 0, 0, 0x80, 0x3F, 0, 0, 0x80, 0x3F, 0, 0, 0x80, 0x3F, 0,
          0, 0x80, 0x3F, 0, 0, 0x80, 0x3F, 0, 0, 0x80, 0x3F, 0, 0, 0x80,
          0x3F]" and k = 13 and ts = 5 and post = "[]"]
  by (simp add: flip_payload_bit_def crc8_example_payload)

section \<open>The text format\<close>

lemma lt16_cases:
  "d < 16 \<Longrightarrow> d \<in> {0, 1, 2, 3, 4, 5, 6, 7, 8, 9, 10, 11, 12, 13, 14, 15 :: nat}"
  by simp arith

lemma hex_value_hex_digit: "d < 16 \<Longrightarrow> hex_value (hex_digit d) = Some d"
  by (drule lt16_cases) (auto simp: hex_digit_def hex_value_def)

lemma hex_digit_plain:
  "d < 16 \<Longrightarrow> hex_digit d \<noteq> CHR '','' \<and> hex_digit d \<noteq> CHR 0x0D \<and> hex_digit d \<noteq> CHR 0x0A"
  by (drule lt16_cases) (auto simp: hex_digit_def)

lemma parse_hex_append:
  "parse_hex acc (xs @ ys) = (case parse_hex acc xs of None \<Rightarrow> None | Some a \<Rightarrow> parse_hex a ys)"
  by (induction xs arbitrary: acc) (auto split: option.splits)

lemma parse_hex_hex_digits:
  "parse_hex acc (hex_digits k v) = Some (acc * 16 ^ k + v mod 16 ^ k)"
proof (induction k arbitrary: v acc)
  case 0
  then show ?case by simp
next
  case (Suc k)
  have "v mod (16 * 16 ^ k) = 16 * (v div 16 mod 16 ^ k) + v mod 16"
    by (rule mod_mult2_eq)
  then show ?case
    by (simp add: parse_hex_append Suc hex_value_hex_digit algebra_simps)
qed

lemma length_hex_digits [simp]: "length (hex_digits k v) = k"
  by (induction k arbitrary: v) simp_all

lemma parse_field_hex08: "parse_field (hex08 w) = Some w"
proof -
  have "unat w < 16 ^ 8"
    using unsigned_less [of w, where ?'a = nat] by simp
  then have "parse_hex 0 (hex_digits 8 (unat w)) = Some (unat w)"
    by (simp add: parse_hex_hex_digits)
  then show ?thesis
    by (simp add: parse_field_def hex08_def)
qed

lemma hex_digits_plain:
  "c \<in> set (hex_digits k v) \<Longrightarrow> c \<noteq> CHR '','' \<and> c \<noteq> CHR 0x0D \<and> c \<noteq> CHR 0x0A"
proof (induction k arbitrary: v)
  case 0
  then show ?case by simp
next
  case (Suc k)
  have "v mod 16 < 16" by simp
  then show ?case
    using Suc hex_digit_plain [of "v mod 16"] by auto
qed


lemma hex08_plain:
  "CHR '','' \<notin> set (hex08 w)" "CHR 0x0D \<notin> set (hex08 w)" "CHR 0x0A \<notin> set (hex08 w)"
  using hex_digits_plain [of _ 8 "unat w"] by (auto simp: hex08_def)

lemma split_fields_last: "CHR '','' \<notin> set f \<Longrightarrow> split_fields cur f = [cur @ f]"
  by (induction f arbitrary: cur) auto

lemma split_fields_comma:
  "CHR '','' \<notin> set f \<Longrightarrow> split_fields cur (f @ CHR '','' # rest) = (cur @ f) # split_fields [] rest"
  by (induction f arbitrary: cur) auto

lemma text_lines_line:
  "CHR 0x0D \<notin> set l \<Longrightarrow> CHR 0x0A \<notin> set l \<Longrightarrow> c = CHR 0x0D \<or> c = CHR 0x0A \<Longrightarrow>
     text_lines cur (l @ c # rest) = (cur @ l) # text_lines [] rest"
  by (induction l arbitrary: cur) auto

lemma butlast_uart_line:
  "butlast (uart_line d) =
     hex08 (timestamp d) @ CHR '','' # hex08 (to_bits (temp d)) @ CHR '','' #
     hex08 (to_bits (gx d)) @ CHR '','' # hex08 (to_bits (gy d)) @ CHR '','' #
     hex08 (to_bits (gz d)) @ CHR '','' # hex08 (to_bits (ax d)) @ CHR '','' #
     hex08 (to_bits (ay d)) @ CHR '','' # hex08 (to_bits (az d))"
  by (simp add: uart_line_def butlast_append)

lemma uart_line_butlast: "uart_line d = butlast (uart_line d) @ [CHR 0x0A]"
  by (simp add: uart_line_def butlast_append)

lemma decode_uart_line: "decode_text_line ts (butlast (uart_line d)) = Some (stamped ts d)"
  by (simp add: decode_text_line_def butlast_uart_line split_fields_comma split_fields_last
        hex08_plain parse_field_hex08 stamped_eq)

lemma uart_line_no_eol:
  "CHR 0x0D \<notin> set (butlast (uart_line d))" "CHR 0x0A \<notin> set (butlast (uart_line d))"
  by (simp_all add: butlast_uart_line hex08_plain)

lemma text_lines_uart:
  "text_lines [] (concat (map uart_line ds)) = map (\<lambda>d. butlast (uart_line d)) ds"
proof (induction ds)
  case Nil
  then show ?case by simp
next
  case (Cons d ds)
  have eq: "uart_line d @ concat (map uart_line ds) =
              butlast (uart_line d) @ CHR 0x0A # concat (map uart_line ds)"
    using uart_line_butlast [of d] by (metis append.assoc append_Cons append_Nil)
  have "text_lines [] (concat (map uart_line (d # ds))) =
          text_lines [] (uart_line d @ concat (map uart_line ds))"
    by simp
  also have "\<dots> = text_lines [] (butlast (uart_line d) @ CHR 0x0A # concat (map uart_line ds))"
    by (simp only: eq)
  also have "\<dots> = ([] @ butlast (uart_line d)) # text_lines [] (concat (map uart_line ds))"
    by (intro text_lines_line uart_line_no_eol) simp
  finally show ?case using Cons by simp
qed

lemma decode_text_log2uart:
  "decode_text ts (log2uart dat num) = map (stamped ts) (take (nat num) dat)"
  by (simp add: decode_text_def log2uart_def text_lines_uart map_filter_def decode_uart_line
        comp_def)

lemma decode_example_line:
  "decode_text_line ts
     ''00000123,41200000,3F800000,3F800000,3F800000,3F800000,3F800000,3F800000'' =
   Some \<lparr>timestamp = 0x123, temp = from_bits 0x41200000, gx = from_bits 0x3F800000,
       gy = from_bits 0x3F800000, gz = from_bits 0x3F800000,
         ax = from_bits 0x3F800000, ay = from_bits 0x3F800000, az = from_bits 0x3F800000,
             system_timestamp = ts\<rparr>"
  by (simp add: decode_text_line_def parse_field_def hex_value_def)


lemma decode_terminated_line:
  assumes "c = CHR 0x0D \<or> c = CHR 0x0A"
  shows "decode_text ts (butlast (uart_line d) @ [c]) = [stamped ts d]"
proof -
  have "text_lines [] (butlast (uart_line d) @ c # []) =
          ([] @ butlast (uart_line d)) # text_lines [] []"
    using assms by (intro text_lines_line uart_line_no_eol)
  then show ?thesis
    by (simp add: decode_text_def map_filter_def decode_uart_line)
qed

text \<open>
  C5. The line \<^verbatim>\<open>00000123,41200000,3F800000,...\<close> decodes to timestamp 0x123 = 291,
  temp with bit pattern 41200000 (10.0) and six floats with bit pattern 3F800000 (1.0).
  The decoder inverts the transmitter: the line \<^verbatim>\<open>log2uart\<close> prints for a record
  (without its newline) decodes to exactly that record, also when terminated by CR or
  by LF,
      and the whole output of \<^verbatim>\<open>log2uart\<close> decodes to the records it was given,
  in order.
\<close>

theorem text_line_decodes:
  "decode_text_line ts ''00000123,41200000,3F800000,3F800000,3F800000,3F800000,3F800000,3F800000'' =
     Some \<lparr>timestamp = 0x123, temp = from_bits 0x41200000, gx = from_bits 0x3F800000,
         gy = from_bits 0x3F800000, gz = from_bits 0x3F800000,
         ax = from_bits 0x3F800000, ay = from_bits 0x3F800000, az = from_bits 0x3F800000,
             system_timestamp = ts\<rparr> \<and>
   ieee754_value (from_bits 0x41200000) = Some 10 \<and>
   ieee754_value (from_bits 0x3F800000) = Some 1 \<and>
   decode_text_line ts (butlast (uart_line d)) = Some (stamped ts d) \<and>
   wire (stamped ts d) = d \<and>
   (c = CHR 0x0D \<or> c = CHR 0x0A \<longrightarrow>
      decode_text ts (butlast (uart_line d) @ [c]) = [stamped ts d]) \<and>
   decode_text ts (log2uart dat num) = map (stamped ts) (take (nat num) dat)"
  using decode_terminated_line [of c ts d]
  by (simp add: decode_example_line ieee754_one ieee754_ten decode_uart_line
        decode_text_log2uart)

theorem text_line_decodes_witness:
  "decode_text 7
     (''00000123,41200000,3f800000,3f800000,3f800000,3f800000,3f800000,3f800000'' @ [CHR 0x0D]) =
     [\<lparr>timestamp = 0x123, temp = from_bits 0x41200000, gx = from_bits 0x3F800000,
         gy = from_bits 0x3F800000, gz = from_bits 0x3F800000,
         ax = from_bits 0x3F800000, ay = from_bits 0x3F800000, az = from_bits 0x3F800000,
             system_timestamp = 7\<rparr>] \<and>
   decode_text 7
     (''00000123,41200000,3f800000,3f800000,3f800000,3f800000,3f800000,3f800000'' @ [CHR 0x0A] @
      ''00000123,41200000,3f800000,3f800000,3f800000,3f800000,3f800000,3f800000'' @ [CHR 0x0A]) =
     [\<lparr>timestamp = 0x123, temp = from_bits 0x41200000, gx = from_bits 0x3F800000,
         gy = from_bits 0x3F800000, gz = from_bits 0x3F800000,
         ax = from_bits 0x3F800000, ay = from_bits 0x3F800000, az = from_bits 0x3F800000,
             system_timestamp = 7\<rparr>,
      \<lparr>timestamp = 0x123, temp = from_bits 0x41200000, gx = from_bits 0x3F800000,
          gy = from_bits 0x3F800000, gz = from_bits 0x3F800000,
         ax = from_bits 0x3F800000, ay = from_bits 0x3F800000, az = from_bits 0x3F800000,
             system_timestamp = 7\<rparr>]"
  using text_line_decodes [where ts = 7 and c = "CHR 0x0D"
      and d = "\<lparr>timestamp = 0x123, temp = from_bits 0x41200000,
          gx = from_bits 0x3F800000, gy = from_bits 0x3F800000, gz = from_bits 0x3F800000,
         ax = from_bits 0x3F800000, ay = from_bits 0x3F800000, az = from_bits 0x3F800000\<rparr>"
      and dat = "[\<lparr>timestamp = 0x123, temp = from_bits 0x41200000,
          gx = from_bits 0x3F800000, gy = from_bits 0x3F800000, gz = from_bits 0x3F800000,
         ax = from_bits 0x3F800000, ay = from_bits 0x3F800000, az = from_bits 0x3F800000\<rparr>,
        \<lparr>timestamp = 0x123, temp = from_bits 0x41200000, gx = from_bits 0x3F800000,
            gy = from_bits 0x3F800000, gz = from_bits 0x3F800000,
         ax = from_bits 0x3F800000, ay = from_bits 0x3F800000,
             az = from_bits 0x3F800000\<rparr>]" and num = 2]
  by (simp add: log2uart_def uart_line_def hex08_def hex_digits_numeral hex_digit_def stamped_eq)

end
